theory Spec2Isabelle
  imports Main "HOL-Library.Word"
begin

section \<open>Errors and durations\<close>

text \<open>
  Go's \<open>error\<close> values that the sources create, inspect or pass on. An \<open>error\<close>
  variable that is \<open>nil\<close> is \<open>None\<close>.
  \<^item> \<open>ErrorString\<close>: \<open>errors.New(msg)\<close> and any other plain error;
  \<^item> \<open>AWSError code msg\<close>: an SDK \<open>awserr.Error\<close> with its error code;
  \<^item> \<open>NotFoundError\<close>, \<open>UnexpectedStateError\<close>, \<open>TimeoutError\<close>: the three error
    structs of the plugin SDK's retry package, with their \<open>LastError\<close>, \<open>Retries\<close>,
    \<open>LastState\<close>/\<open>State\<close>, \<open>Timeout\<close> and \<open>ExpectedState\<close> fields;
  \<^item> \<open>ContextError\<close>: \<open>ctx.Err()\<close> of a cancelled context;
  \<^item> \<open>EmptyResultError\<close>, \<open>TooManyResultsError\<close>: the errors of
    \<open>tfresource.AssertSinglePtrResult\<close>.
\<close>

datatype error =
    ErrorString string
  | AWSError string string
  | NotFoundError "error option" nat
  | UnexpectedStateError "error option" string "string list"
  | TimeoutError "error option" string int "string list"
  | ContextError
  | EmptyResultError
  | TooManyResultsError nat

text \<open>\<open>time.Duration\<close> is an \<open>int64\<close> count of nanoseconds.\<close>

type_synonym Duration = int

definition Millisecond :: Duration where
  "Millisecond = 1000000"

definition Second :: Duration where
  "Second = 1000 * Millisecond"

definition Minute :: Duration where
  "Minute = 60 * Second"

definition int64_min :: int where
  "int64_min = - (2 ^ 63)"

definition int64_max :: int where
  "int64_max = 2 ^ 63 - 1"

definition is_int64 :: "int \<Rightarrow> bool" where
  "is_int64 x = (int64_min \<le> x \<and> x \<le> int64_max)"

text \<open>The value an \<open>int64\<close> holds after an arithmetic result \<open>x\<close> wrapped around.\<close>

definition wrap64 :: "int \<Rightarrow> int" where
  "wrap64 x = (x + 2 ^ 63) mod 2 ^ 64 - 2 ^ 63"

text \<open>Go's integer division truncates toward zero.\<close>

definition go_div :: "int \<Rightarrow> int \<Rightarrow> int" where
  "go_div a b = (if (a < 0) = (b < 0) then \<bar>a\<bar> div \<bar>b\<bar> else - (\<bar>a\<bar> div \<bar>b\<bar>))"

text \<open>\<open>func (d Duration) Milliseconds() int64 { return int64(d) / 1e6 }\<close>\<close>

definition Milliseconds :: "Duration \<Rightarrow> int" where
  "Milliseconds d = go_div d 1000000"

section \<open>The plugin SDK's StateChangeConf\<close>

text \<open>
  \<open>StateChangeConf\<close> with the fields the sources set. \<open>Refresh\<close> is a closure with
  effects: it takes the state of everything it can touch (\<open>'s\<close>) and returns the new
  one beside its three results \<open>(interface{}, string, error)\<close>; a \<open>nil\<close> result is
  \<open>None\<close>.
\<close>

record ('r, 's) StateChangeConf =
  Delay :: Duration
  Pending :: "string list"
  Refresh :: "'s \<Rightarrow> ('r option \<times> string \<times> error option) \<times> 's"
  Target :: "string list"
  Timeout :: Duration
  MinTimeout :: Duration
  PollInterval :: Duration
  NotFoundChecks :: nat
  ContinuousTargetOccurence :: nat

text \<open>The zero value of the struct, before a composite literal sets fields.\<close>

definition emptyStateChangeConf ::
  "('s \<Rightarrow> ('r option \<times> string \<times> error option) \<times> 's) \<Rightarrow> ('r, 's) StateChangeConf" where
  "emptyStateChangeConf refresh =
     \<lparr> Delay = 0, Pending = [], Refresh = refresh, Target = [], Timeout = 0,
       MinTimeout = 0, PollInterval = 0, NotFoundChecks = 0, ContinuousTargetOccurence = 0 \<rparr>"

text \<open>
  What ends a wait that has not reached a result of its own: the timeout, after which
  the refresh in flight (if one is, and if it returns within the grace period: the
  flag) is still taken into account, or the cancellation of the context.
\<close>

datatype interrupt = TimedOut bool | Cancelled

text \<open>
  One round of the refresh loop ends the loop with a result, a state and an error, marked
  as done when the target was reached, or goes on with new counters.
\<close>

datatype 'r round =
    Finished "'r option" string "error option" bool
  | Continue nat nat string

text \<open>
  Modelled from the spec: a part of the poll loop of the plugin SDK's
  \<open>WaitForStateContext\<close>, which is not among the sources (see \<open>refreshRound\<close>).
  The loop over \<open>conf.Target\<close>: every element equal to the current state counts one
  occurrence, and the loop is left as soon as the count reaches
  \<open>ContinuousTargetOccurence\<close>. Result: found, the count, done.
\<close>

fun scanTarget :: "string \<Rightarrow> nat \<Rightarrow> string list \<Rightarrow> bool \<Rightarrow> nat \<Rightarrow> bool \<times> nat \<times> bool" where
  "scanTarget cur c [] found occ = (found, occ, False)"
| "scanTarget cur c (allowed # rest) found occ =
     (if cur = allowed
      then (if c = occ + 1 then (True, occ + 1, True)
            else scanTarget cur c rest True (occ + 1))
      else scanTarget cur c rest found occ)"

text \<open>
  Modelled from the spec: \<open>StateChangeConf.WaitForStateContext\<close> belongs to the plugin
  SDK and is not among the sources. \<open>refreshRound\<close>, \<open>waitLoop\<close> and \<open>WaitForStateContext\<close>
  follow the SDK's poll loop ("the generic retry/poll primitive", a "polling state
  machine" for state transitions such as creating to available): call \<open>Refresh\<close>;
  an error ends the wait with that error; with no target, a nil result is the target;
  a nil result otherwise counts as not found, at most \<open>NotFoundChecks\<close> times in a row;
  a target state ends the wait with the result, a pending state polls again, any other
  state is an \<open>UnexpectedStateError\<close> when pending states are given.

  The loop runs in a goroutine beside timers. Here it is sequential: \<open>polls\<close> is the
  number of refreshes that return before the timeout (or the cancellation), which is what
  \<open>Delay\<close>, \<open>MinTimeout\<close>, \<open>PollInterval\<close> and \<open>Timeout\<close> and the speed of
  \<open>Refresh\<close> decide together; the durations themselves play no other part.
\<close>

definition refreshRound ::
  "('r, 's) StateChangeConf \<Rightarrow> nat \<Rightarrow> nat \<Rightarrow> 's \<Rightarrow> 'r round \<times> 's" where
  "refreshRound conf notfoundTick targetOccurence s =
     (case Refresh conf s of ((res, currentState, err), s') \<Rightarrow>
        (if err \<noteq> None then (Finished res currentState err False, s')
         else if res = None \<and> Target conf = [] then
           (if ContinuousTargetOccurence conf = targetOccurence + 1
            then (Finished res currentState None True, s')
            else (Continue notfoundTick (targetOccurence + 1) currentState, s'))
         else if res = None then
           (if notfoundTick + 1 > NotFoundChecks conf
            then (Finished res currentState
                    (Some (NotFoundError err (notfoundTick + 1))) False, s')
            else (Continue (notfoundTick + 1) targetOccurence currentState, s'))
         else
           (case scanTarget currentState (ContinuousTargetOccurence conf) (Target conf)
                   False targetOccurence of
              (found, occ, done) \<Rightarrow>
                if done then (Finished res currentState None True, s')
                else if currentState \<in> set (Pending conf)
                then (Continue 0 0 currentState, s')
                else if \<not> found \<and> Pending conf \<noteq> []
                then (Finished res currentState
                        (Some (UnexpectedStateError err currentState (Target conf))) False, s')
                else (Continue 0 occ currentState, s'))))"

fun waitLoop ::
  "('r, 's) StateChangeConf \<Rightarrow> interrupt \<Rightarrow> nat \<Rightarrow> nat \<Rightarrow> nat \<Rightarrow> string \<Rightarrow> 's
     \<Rightarrow> ('r option \<times> error option) \<times> 's" where
  "waitLoop conf intr 0 notfoundTick targetOccurence lastState s =
     (case intr of
        Cancelled \<Rightarrow> ((None, Some ContextError), s)
      | TimedOut False \<Rightarrow>
          ((None, Some (TimeoutError None lastState (Timeout conf) (Target conf))), s)
      | TimedOut True \<Rightarrow>
          (case refreshRound conf notfoundTick targetOccurence s of
             (Finished res st err done, s') \<Rightarrow>
               if done then ((res, err), s')
               else ((None, Some (TimeoutError err st (Timeout conf) (Target conf))), s')
           | (Continue nf occ st, s') \<Rightarrow>
               ((None, Some (TimeoutError None st (Timeout conf) (Target conf))), s')))"
| "waitLoop conf intr (Suc polls) notfoundTick targetOccurence lastState s =
     (case refreshRound conf notfoundTick targetOccurence s of
        (Finished res st err done, s') \<Rightarrow> ((res, err), s')
      | (Continue nf occ st, s') \<Rightarrow> waitLoop conf intr polls nf occ st s')"

text \<open>
  Modelled from the spec: the defaults that the SDK's \<open>WaitForStateContext\<close> sets
  first, 20 checks for a result that is not found and one occurrence of the target, and
  the wait itself, which starts the poll loop with its counters at zero.
\<close>

definition withDefaults :: "('r, 's) StateChangeConf \<Rightarrow> ('r, 's) StateChangeConf" where
  "withDefaults conf =
     (let conf1 = (if NotFoundChecks conf = 0 then conf\<lparr>NotFoundChecks := 20\<rparr> else conf);
          conf2 = (if ContinuousTargetOccurence conf1 = 0
                   then conf1\<lparr>ContinuousTargetOccurence := 1\<rparr> else conf1)
      in conf2)"

definition WaitForStateContext ::
  "('r, 's) StateChangeConf \<Rightarrow> interrupt \<Rightarrow> nat \<Rightarrow> 's \<Rightarrow> ('r option \<times> error option) \<times> 's" where
  "WaitForStateContext conf intr polls s = waitLoop (withDefaults conf) intr polls 0 0 [] s"

section \<open>RetryConfigContext\<close>

text \<open>\<open>resource.RetryError\<close>: \<open>Err\<close> is an \<open>error\<close> and may be nil.\<close>

record RetryError =
  Err :: "error option"
  Retryable :: bool

text \<open>
  A \<open>resource.RetryFunc\<close> is \<open>func() *RetryError\<close>: with its effects on \<open>'s\<close>, and
  \<open>None\<close> for a nil pointer.
\<close>

type_synonym 's RetryFunc = "'s \<Rightarrow> RetryError option \<times> 's"

text \<open>
  The \<open>Refresh\<close> closure of \<open>RetryConfigContext\<close>. It shares the variable
  \<open>resultErr\<close> with the function around it, so its state is \<open>resultErr\<close> beside
  the state of \<open>f\<close>. The result is the number 42 or nil.
\<close>

definition retryRefresh ::
  "'s RetryFunc \<Rightarrow> error option \<times> 's \<Rightarrow> (nat option \<times> string \<times> error option) \<times> (error option \<times> 's)" where
  "retryRefresh f = (\<lambda>(resultErr, s).
     (case f s of (rerr, s') \<Rightarrow>
        (case rerr of
           None \<Rightarrow> ((Some 42, ''success'', None), (None, s'))
         | Some r \<Rightarrow>
             if Retryable r then ((Some 42, ''retryableerror'', None), (Err r, s'))
             else ((None, ''quit'', Err r), (Err r, s')))))"

text \<open>
  Modelled from the spec: \<open>rand.Int63n\<close> belongs to Go's standard library and is not
  among the sources; the initial delay is "jittered". \<open>rand.Int63n(n)\<close> returns a number in
  \<open>[0, n)\<close> for \<open>n > 0\<close> and panics otherwise (the source calls it with \<open>n > 0\<close>
  only): here the generator's next 63-bit number \<open>raw\<close> reduced modulo \<open>n\<close>.
\<close>

definition Int63n :: "int \<Rightarrow> int \<Rightarrow> int" where
  "Int63n raw n = raw mod n"

text \<open>
  Lines 18 to 61: the \<open>StateChangeConf\<close> that \<open>RetryConfigContext\<close> builds. \<open>raw\<close>
  is the number the freshly seeded generator yields.
\<close>

definition retryStateChangeConf ::
  "int \<Rightarrow> Duration \<Rightarrow> Duration \<Rightarrow> Duration \<Rightarrow> Duration \<Rightarrow> Duration \<Rightarrow> 's RetryFunc
     \<Rightarrow> (nat, error option \<times> 's) StateChangeConf" where
  "retryStateChangeConf raw delay delayRand minTimeout pollInterval timeout f =
     (let c0 = (emptyStateChangeConf (retryRefresh f))
                 \<lparr> Pending := [''retryableerror''], Target := [''success''], Timeout := timeout \<rparr>;
          c1 = (if Milliseconds delay > 0 then c0\<lparr>Delay := delay\<rparr> else c0);
          c2 = (if Milliseconds delayRand > 0
                then c1\<lparr>Delay := wrap64 (Int63n raw (Milliseconds delayRand) * Millisecond)\<rparr>
                else c1);
          c3 = (if Milliseconds minTimeout > 0 then c2\<lparr>MinTimeout := minTimeout\<rparr> else c2);
          c4 = (if Milliseconds pollInterval > 0 then c3\<lparr>PollInterval := pollInterval\<rparr> else c3)
      in c4)"

text \<open>
  \<open>RetryConfigContext\<close>: \<open>intr\<close> and \<open>polls\<close> say how the wait is cut off (see
  \<open>WaitForStateContext\<close>), \<open>raw\<close> is the random number, the rest are the arguments of
  the source. The mutex orders the accesses to \<open>resultErr\<close>; in this sequential
  reading it does nothing.
\<close>

definition RetryConfigContext ::
  "interrupt \<Rightarrow> nat \<Rightarrow> int \<Rightarrow> Duration \<Rightarrow> Duration \<Rightarrow> Duration \<Rightarrow> Duration \<Rightarrow> Duration
     \<Rightarrow> 's RetryFunc \<Rightarrow> 's \<Rightarrow> error option \<times> 's" where
  "RetryConfigContext intr polls raw delay delayRand minTimeout pollInterval timeout f s =
     (let c = retryStateChangeConf raw delay delayRand minTimeout pollInterval timeout f
      in case WaitForStateContext c intr polls (None, s) of
           ((uu, waitErr), (resultErr, s')) \<Rightarrow>
             (if resultErr = None then (waitErr, s') else (resultErr, s')))"

section \<open>Observing a retry function\<close>

text \<open>
  \<open>logged f\<close> is the retry function \<open>f\<close> that also appends the outcome of each call to
  a list kept in its state: the list of the invocations of \<open>f\<close>, in order.
\<close>

definition logged :: "'s RetryFunc \<Rightarrow> ('s \<times> RetryError option list) RetryFunc" where
  "logged f = (\<lambda>(s, log). case f s of (r, s') \<Rightarrow> (r, (s', log @ [r])))"

text \<open>
  The part of a retry configuration that decides the poll loop, once the defaults are set.
\<close>

definition retryShaped :: "(nat, 's) StateChangeConf \<Rightarrow> bool" where
  "retryShaped c = (Target c = [''success''] \<and> Pending c = [''retryableerror''] \<and> ContinuousTargetOccurence c = 1)"

text \<open>
  An outcome after which the loop polls again: a retryable one, or a \<open>RetryError\<close> that
  holds no error (its refresh result is nil, which counts as not found).
\<close>

definition continuing :: "RetryError option \<Rightarrow> bool" where
  "continuing x = (case x of None \<Rightarrow> False | Some r \<Rightarrow> Retryable r \<or> Err r = None)"

text \<open>The error an outcome leaves in \<open>resultErr\<close>.\<close>

definition errOf :: "RetryError option \<Rightarrow> error option" where
  "errOf x = (case x of None \<Rightarrow> None | Some r \<Rightarrow> Err r)"

text \<open>
  What a run of the poll loop that logged the outcomes \<open>new\<close> leaves behind, from
  \<open>resultErr = re\<close>: \<open>resultErr = re'\<close> and the wait's own error \<open>werr\<close>.
\<close>

definition traceOK :: "error option \<Rightarrow> RetryError option list \<Rightarrow> error option \<Rightarrow> error option \<Rightarrow> bool" where
  "traceOK re new re' werr =
     ((\<forall>x \<in> set (butlast new). continuing x) \<and>
      (if new = [] then re' = re \<and> werr \<noteq> None
       else re' = errOf (last new) \<and> (werr = None \<longleftrightarrow> last new = None)))"

text \<open>Two configurations that differ in the logging of the outcomes only.\<close>

definition sameWait :: "(nat, error option \<times> 's \<times> RetryError option list) StateChangeConf \<Rightarrow> (nat, error option \<times> 's) StateChangeConf \<Rightarrow> 's RetryFunc \<Rightarrow> bool" where
  "sameWait c1 c2 f =
     (Refresh c1 = retryRefresh (logged f) \<and> Refresh c2 = retryRefresh f \<and>
      Target c1 = Target c2 \<and> Pending c1 = Pending c2 \<and> Timeout c1 = Timeout c2 \<and>
      NotFoundChecks c1 = NotFoundChecks c2 \<and>
      ContinuousTargetOccurence c1 = ContinuousTargetOccurence c2)"

text \<open>The error that the wait inside \<open>RetryConfigContext\<close> returns (\<open>waitErr\<close>).\<close>

definition waitErrOf :: "interrupt \<Rightarrow> nat \<Rightarrow> int \<Rightarrow> Duration \<Rightarrow> Duration \<Rightarrow> Duration \<Rightarrow> Duration \<Rightarrow> Duration
     \<Rightarrow> 's RetryFunc \<Rightarrow> 's \<Rightarrow> error option" where
  "waitErrOf intr polls raw delay delayRand minTimeout pollInterval timeout f s =
     snd (fst (WaitForStateContext
        (retryStateChangeConf raw delay delayRand minTimeout pollInterval timeout f)
        intr polls (None, s)))"

text \<open>
  A retry function for examples: its state counts the calls, and it returns a retryable
  throttling error until it has been called \<open>k\<close> times.
\<close>

definition throttlingErr :: RetryError where
  "throttlingErr = \<lparr>Err = Some (AWSError ''Throttling'' ''slow down''), Retryable = True\<rparr>"

definition throttled :: "nat \<Rightarrow> nat RetryFunc" where
  "throttled k = (\<lambda>n. (if n < k then Some throttlingErr else None, Suc n))"

section \<open>The EFS API objects\<close>

text \<open>
  The structs of the AWS SDK that the resource reads and writes, with the fields the
  source uses. A pointer field is an option: \<open>None\<close> is nil. \<open>float64\<close> values are only
  copied, never computed with: they are kept as their 64 bits.
\<close>

type_synonym float64 = "64 word"

type_synonym Tags = "(string \<times> string) list"

record LifecyclePolicy =
  TransitionToArchive :: "string option"
  TransitionToIA :: "string option"
  TransitionToPrimaryStorageClass :: "string option"

record FileSystemSize =
  Value :: "int option"
  ValueInIA :: "int option"
  ValueInStandard :: "int option"

record FileSystemProtectionDescription =
  ReplicationOverwriteProtection :: "string option"

record FileSystemDescription =
  FileSystemArn :: "string option"
  AvailabilityZoneId :: "string option"
  AvailabilityZoneName :: "string option"
  CreationToken :: "string option"
  FileSystemId :: "string option"
  Encrypted :: "bool option"
  KmsKeyId :: "string option"
  LifeCycleState :: "string option"
  Name :: "string option"
  NumberOfMountTargets :: "int option"
  OwnerId :: "string option"
  PerformanceMode :: "string option"
  FileSystemProtection :: "FileSystemProtectionDescription option"
  ProvisionedThroughputInMibps :: "float64 option"
  SizeInBytes :: "FileSystemSize option"
  ThroughputMode :: "string option"
  FileSystemTags :: Tags

text \<open>The request structs; their fields carry a prefix, since the names repeat.\<close>

record CreateFileSystemInput =
  cfs_CreationToken :: "string option"
  cfs_Tags :: Tags
  cfs_ThroughputMode :: "string option"
  cfs_AvailabilityZoneName :: "string option"
  cfs_PerformanceMode :: "string option"
  cfs_ProvisionedThroughputInMibps :: "float64 option"
  cfs_Encrypted :: "bool option"
  cfs_KmsKeyId :: "string option"

record UpdateFileSystemInput =
  ufs_FileSystemId :: "string option"
  ufs_ThroughputMode :: "string option"
  ufs_ProvisionedThroughputInMibps :: "float64 option"

record PutLifecycleConfigurationInput =
  plc_FileSystemId :: "string option"
  plc_LifecyclePolicies :: "LifecyclePolicy option list"

record UpdateFileSystemProtectionInput =
  ufp_FileSystemId :: "string option"
  ufp_ReplicationOverwriteProtection :: "string option"

text \<open>The SDK's constants.\<close>

definition ThroughputModeBursting :: string where
  "ThroughputModeBursting = ''bursting''"

definition ThroughputModeProvisioned :: string where
  "ThroughputModeProvisioned = ''provisioned''"

definition LifeCycleStateCreating :: string where
  "LifeCycleStateCreating = ''creating''"

definition LifeCycleStateUpdating :: string where
  "LifeCycleStateUpdating = ''updating''"

definition LifeCycleStateAvailable :: string where
  "LifeCycleStateAvailable = ''available''"

definition LifeCycleStateDeleting :: string where
  "LifeCycleStateDeleting = ''deleting''"

definition ErrCodeFileSystemNotFound :: string where
  "ErrCodeFileSystemNotFound = ''FileSystemNotFound''"

text \<open>\<open>aws.StringValue\<close> and \<open>aws.Int64Value\<close>: the value behind a pointer, the zero value for nil.\<close>

definition StringValue :: "string option \<Rightarrow> string" where
  "StringValue p = (case p of None \<Rightarrow> [] | Some v \<Rightarrow> v)"

definition Int64Value :: "int option \<Rightarrow> int" where
  "Int64Value p = (case p of None \<Rightarrow> 0 | Some v \<Rightarrow> v)"

section \<open>Configuration values\<close>

text \<open>
  A value of type \<open>interface{}\<close> in a configuration list or map: a string, an integer,
  a boolean, a \<open>map[string]interface{}\<close>, or nil.
\<close>

datatype iface =
    IString string
  | IInt int
  | IBool bool
  | IMap "string \<Rightarrow> iface option"
  | INil

text \<open>The type assertion \<open>v, ok := m[k].(string)\<close>: a missing key gives nil, which is no string.\<close>

definition stringAt :: "(string \<Rightarrow> iface option) \<Rightarrow> string \<Rightarrow> string \<times> bool" where
  "stringAt m k = (case m k of Some (IString v) \<Rightarrow> (v, True) | _ \<Rightarrow> ([], False))"

section \<open>Flattening and expanding\<close>

fun flattenFileSystemLifecyclePolicies :: "LifecyclePolicy option list \<Rightarrow> iface list" where
  "flattenFileSystemLifecyclePolicies [] = []"
| "flattenFileSystemLifecyclePolicies (None # apiObjects) =
     flattenFileSystemLifecyclePolicies apiObjects"
| "flattenFileSystemLifecyclePolicies (Some apiObject # apiObjects) =
     (let tfMap0 = Map.empty;
          tfMap1 = (case TransitionToArchive apiObject of
                      Some v \<Rightarrow> tfMap0(''transition_to_archive'' \<mapsto> IString v)
                    | None \<Rightarrow> tfMap0);
          tfMap2 = (case TransitionToIA apiObject of
                      Some v \<Rightarrow> tfMap1(''transition_to_ia'' \<mapsto> IString v)
                    | None \<Rightarrow> tfMap1);
          tfMap3 = (case TransitionToPrimaryStorageClass apiObject of
                      Some v \<Rightarrow> tfMap2(''transition_to_primary_storage_class'' \<mapsto> IString v)
                    | None \<Rightarrow> tfMap2)
      in IMap tfMap3 # flattenFileSystemLifecyclePolicies apiObjects)"

fun expandFileSystemLifecyclePolicies :: "iface list \<Rightarrow> LifecyclePolicy option list" where
  "expandFileSystemLifecyclePolicies [] = []"
| "expandFileSystemLifecyclePolicies (IMap tfMap # tfList) =
     (let a0 = \<lparr> TransitionToArchive = None, TransitionToIA = None,
                 TransitionToPrimaryStorageClass = None \<rparr>;
          a1 = (case stringAt tfMap ''transition_to_archive'' of
                  (v, ok) \<Rightarrow> if ok \<and> v \<noteq> [] then a0\<lparr>TransitionToArchive := Some v\<rparr> else a0);
          a2 = (case stringAt tfMap ''transition_to_ia'' of
                  (v, ok) \<Rightarrow> if ok \<and> v \<noteq> [] then a1\<lparr>TransitionToIA := Some v\<rparr> else a1);
          a3 = (case stringAt tfMap ''transition_to_primary_storage_class'' of
                  (v, ok) \<Rightarrow> if ok \<and> v \<noteq> []
                            then a2\<lparr>TransitionToPrimaryStorageClass := Some v\<rparr> else a2)
      in Some a3 # expandFileSystemLifecyclePolicies tfList)"
| "expandFileSystemLifecyclePolicies (other # tfList) = expandFileSystemLifecyclePolicies tfList"

definition flattenFileSystemSizeInBytes :: "FileSystemSize option \<Rightarrow> iface list" where
  "flattenFileSystemSizeInBytes p =
     (case p of
        None \<Rightarrow> []
      | Some sizeInBytes \<Rightarrow>
          (let m0 = [''value'' \<mapsto> IInt (Int64Value (Value sizeInBytes))];
               m1 = (case ValueInIA sizeInBytes of
                       Some v \<Rightarrow> m0(''value_in_ia'' \<mapsto> IInt (Int64Value (ValueInIA sizeInBytes)))
                     | None \<Rightarrow> m0);
               m2 = (case ValueInStandard sizeInBytes of
                       Some v \<Rightarrow> m1(''value_in_standard'' \<mapsto>
                                    IInt (Int64Value (ValueInStandard sizeInBytes)))
                     | None \<Rightarrow> m1)
           in [IMap m2]))"

definition expandUpdateFileSystemProtectionInput ::
  "string \<Rightarrow> (string \<Rightarrow> iface option) option \<Rightarrow> UpdateFileSystemProtectionInput option" where
  "expandUpdateFileSystemProtectionInput ident p =
     (case p of
        None \<Rightarrow> None
      | Some tfMap \<Rightarrow>
          (let apiObject = \<lparr> ufp_FileSystemId = Some ident,
                               ufp_ReplicationOverwriteProtection = None \<rparr>
           in case stringAt tfMap ''replication_overwrite'' of
                (v, ok) \<Rightarrow>
                  if ok \<and> v \<noteq> []
                  then Some (apiObject\<lparr>ufp_ReplicationOverwriteProtection := Some v\<rparr>)
                  else Some apiObject))"

definition flattenFileSystemProtection :: "FileSystemProtectionDescription option \<Rightarrow> iface list" where
  "flattenFileSystemProtection p =
     (case p of
        None \<Rightarrow> []
      | Some protection \<Rightarrow>
          (let tfMap = Map.empty
           in case ReplicationOverwriteProtection protection of
                Some v \<Rightarrow> [IMap (tfMap(''replication_overwrite'' \<mapsto> IString v))]
              | None \<Rightarrow> [IMap tfMap]))"

section \<open>Lifecycle policy maps\<close>

text \<open>The keys of a \<open>lifecycle_policy\<close> block.\<close>

definition lifecycleKeys :: "string set" where
  "lifecycleKeys = {''transition_to_archive'', ''transition_to_ia'',
                    ''transition_to_primary_storage_class''}"

text \<open>A key that is absent, or bound to a string that is not empty.\<close>

definition nonEmptyString :: "iface option \<Rightarrow> bool" where
  "nonEmptyString x = (case x of None \<Rightarrow> True | Some (IString v) \<Rightarrow> v \<noteq> [] | Some _ \<Rightarrow> False)"

text \<open>
  A lifecycle-policy map: a map with no key beside the three, each of them absent or
  bound to a non-empty string.
\<close>

definition lifecyclePolicyMap :: "iface \<Rightarrow> bool" where
  "lifecyclePolicyMap x =
     (case x of
        IMap m \<Rightarrow> dom m \<subseteq> lifecycleKeys \<and>
                  nonEmptyString (m ''transition_to_archive'') \<and>
                  nonEmptyString (m ''transition_to_ia'') \<and>
                  nonEmptyString (m ''transition_to_primary_storage_class'')
      | _ \<Rightarrow> False)"

text \<open>
  The field that \<open>expandFileSystemLifecyclePolicies\<close> reads at a key, and the entry that
  \<open>flattenFileSystemLifecyclePolicies\<close> writes for a field.
\<close>

definition strField :: "(string \<Rightarrow> iface option) \<Rightarrow> string \<Rightarrow> string option" where
  "strField m k = (case stringAt m k of (v, ok) \<Rightarrow> if ok \<and> v \<noteq> [] then Some v else None)"

definition putField :: "string \<Rightarrow> string option \<Rightarrow> (string \<Rightarrow> iface option) \<Rightarrow> (string \<Rightarrow> iface option)" where
  "putField k p tfMap = (case p of Some v \<Rightarrow> tfMap(k \<mapsto> IString v) | None \<Rightarrow> tfMap)"

section \<open>The resource data and the API client\<close>

text \<open>
  Modelled from the spec: \<open>schema.ResourceData\<close> belongs to the plugin SDK and is not
  among the sources. It holds "the declarative model": the ID, whether the resource is being
  created, the keys whose value changes in this apply (\<open>d.HasChange\<close>), and one value per
  attribute of the schema of lines 45 to 179, with the type the schema gives it; \<open>None\<close>
  is an attribute that is not set. \<open>d.Set\<close> with a nil pointer leaves the attribute unset.
\<close>

record ResourceData =
  resId :: string
  isNewResource :: bool
  changedKeys :: "string list"
  attr_arn :: "string option"
  attr_availability_zone_id :: "string option"
  attr_availability_zone_name :: "string option"
  attr_creation_token :: "string option"
  attr_dns_name :: "string option"
  attr_encrypted :: "bool option"
  attr_kms_key_id :: "string option"
  attr_lifecycle_policy :: "iface list option"
  attr_name :: "string option"
  attr_number_of_mount_targets :: "int option"
  attr_owner_id :: "string option"
  attr_performance_mode :: "string option"
  attr_protection :: "iface list option"
  attr_provisioned_throughput_in_mibps :: "float64 option"
  attr_size_in_bytes :: "iface list option"
  attr_throughput_mode :: "string option"

text \<open>
  Modelled from the spec: \<open>d.GetOk\<close> of the plugin SDK, which is not among the sources.
  \<open>d.GetOk\<close> returns the value, the zero value of the type when the attribute is not set,
  and whether the attribute has been set to a value that is not the zero value of its
  type: an empty string, \<open>false\<close> and an empty list are reported like an attribute that
  is not set.
\<close>

definition GetOk_string :: "string option \<Rightarrow> string \<times> bool" where
  "GetOk_string p = (case p of None \<Rightarrow> ([], False) | Some v \<Rightarrow> (v, v \<noteq> []))"

definition GetOk_bool :: "bool option \<Rightarrow> bool \<times> bool" where
  "GetOk_bool p = (case p of None \<Rightarrow> (False, False) | Some v \<Rightarrow> (v, v))"

definition GetOk_list :: "iface list option \<Rightarrow> iface list \<times> bool" where
  "GetOk_list p = (case p of None \<Rightarrow> ([], False) | Some v \<Rightarrow> (v, v \<noteq> []))"

text \<open>
  Modelled from the spec: \<open>d.Get\<close> and \<open>d.HasChange\<close> of the plugin SDK, which are
  not among the sources.
  \<open>d.Get\<close> returns the value, the schema's default when the attribute is not set
  (\<open>throughput_mode\<close> alone has one, line 176), and the zero value otherwise.
\<close>

definition Get_throughput_mode :: "ResourceData \<Rightarrow> string" where
  "Get_throughput_mode d =
     (case attr_throughput_mode d of None \<Rightarrow> ThroughputModeBursting | Some v \<Rightarrow> v)"

definition Get_provisioned_throughput_in_mibps :: "ResourceData \<Rightarrow> float64" where
  "Get_provisioned_throughput_in_mibps d =
     (case attr_provisioned_throughput_in_mibps d of None \<Rightarrow> 0 | Some v \<Rightarrow> v)"

definition Get_lifecycle_policy :: "ResourceData \<Rightarrow> iface list" where
  "Get_lifecycle_policy d = (case attr_lifecycle_policy d of None \<Rightarrow> [] | Some v \<Rightarrow> v)"

definition HasChange :: "ResourceData \<Rightarrow> string \<Rightarrow> bool" where
  "HasChange d k = (k \<in> set (changedKeys d))"

definition HasChanges :: "ResourceData \<Rightarrow> string list \<Rightarrow> bool" where
  "HasChanges d ks = (\<exists>k \<in> set ks. HasChange d k)"

text \<open>
  \<open>meta.(*conns.AWSClient)\<close>: the operations of the EFS client that the resource calls,
  with their effects on the remote service \<open>'w\<close>, and \<open>RegionalHostname\<close>. An operation
  returns its error (\<open>Inl\<close>) or its output. \<open>DescribeFileSystemsPagesWithContext\<close> hands
  its pages to a callback: here it returns them, beside its error; a page and a file
  system in a page may be nil. \<open>SetListError\<close> is the error, if any, with which
  \<open>d.Set\<close> refuses a list for an attribute.
\<close>

record 'w AWSClient =
  CreateFileSystemWithContext ::
    "CreateFileSystemInput \<Rightarrow> 'w \<Rightarrow> (error + FileSystemDescription) \<times> 'w"
  DescribeFileSystemsPagesWithContext ::
    "string option \<Rightarrow> 'w \<Rightarrow> (FileSystemDescription option list option list \<times> error option) \<times> 'w"
  DeleteFileSystemWithContext :: "string option \<Rightarrow> 'w \<Rightarrow> error option \<times> 'w"
  PutLifecycleConfigurationWithContext ::
    "PutLifecycleConfigurationInput \<Rightarrow> 'w \<Rightarrow> error option \<times> 'w"
  UpdateFileSystemProtectionWithContext ::
    "UpdateFileSystemProtectionInput option \<Rightarrow> 'w \<Rightarrow> error option \<times> 'w"
  UpdateFileSystemWithContext :: "UpdateFileSystemInput \<Rightarrow> 'w \<Rightarrow> error option \<times> 'w"
  DescribeLifecycleConfigurationWithContext ::
    "string option \<Rightarrow> 'w \<Rightarrow> (error + LifecyclePolicy option list) \<times> 'w"
  RegionalHostname :: "string \<Rightarrow> string"
  SetListError :: "string \<Rightarrow> iface list \<Rightarrow> error option"

text \<open>
  Diagnostics: \<open>sdkdiag.AppendErrorf(diags, format, ..., err)\<close> adds the message before
  the colon with the error, \<open>sdkdiag.AppendFromErr(diags, err)\<close> adds the error. A failed
  type assertion is a panic.
\<close>

datatype diagnostic = DiagErrorf string error | DiagFromErr error | DiagPanic string

text \<open>
  What a handler leaves behind: its diagnostics, the resource data, the tags it handed
  to the context (\<open>setTagsOut\<close>), and the remote service.
\<close>

record 'w outcome =
  diags :: "diagnostic list"
  rdata :: ResourceData
  tagsOut :: "Tags option"
  world :: 'w

text \<open>
  Modelled from the spec: \<open>tfawserr.ErrCodeEquals\<close>, \<open>tfresource.NotFound\<close> and
  \<open>tfresource.AssertSinglePtrResult\<close> are helpers that are not among the sources.
  \<open>ErrCodeEquals\<close> holds of an AWS error with the given code. \<open>NotFound\<close> holds of an
  error that is, or converts to, a \<open>retry.NotFoundError\<close>: that error itself, which
  says that the object "no longer exists", and the two errors of
  \<open>AssertSinglePtrResult\<close>, which both convert to it. \<open>AssertSinglePtrResult\<close> returns
  the only element of a list, and an empty-result error for no element or a nil one, a
  too-many-results error for more.
\<close>

definition ErrCodeEquals :: "error option \<Rightarrow> string \<Rightarrow> bool" where
  "ErrCodeEquals err code = (case err of Some (AWSError c m) \<Rightarrow> c = code | _ \<Rightarrow> False)"

definition NotFound :: "error option \<Rightarrow> bool" where
  "NotFound err =
     (case err of
        Some (NotFoundError l n) \<Rightarrow> True
      | Some EmptyResultError \<Rightarrow> True
      | Some (TooManyResultsError n) \<Rightarrow> True
      | _ \<Rightarrow> False)"

definition AssertSinglePtrResult :: "'a option list \<Rightarrow> error + 'a" where
  "AssertSinglePtrResult a =
     (case a of
        [] \<Rightarrow> Inl EmptyResultError
      | [None] \<Rightarrow> Inl EmptyResultError
      | [Some v] \<Rightarrow> Inr v
      | _ \<Rightarrow> Inl (TooManyResultsError (length a)))"

section \<open>Finding a file system\<close>

text \<open>The callback of \<open>findFileSystems\<close> on one page: the file systems it appends.\<close>

definition pageMatches ::
  "(FileSystemDescription \<Rightarrow> bool) \<Rightarrow> FileSystemDescription option list option
     \<Rightarrow> FileSystemDescription option list" where
  "pageMatches flt page =
     (case page of
        None \<Rightarrow> []
      | Some fileSystems \<Rightarrow>
          filter (\<lambda>v. case v of None \<Rightarrow> False | Some x \<Rightarrow> flt x) fileSystems)"

definition findFileSystems ::
  "'w AWSClient \<Rightarrow> string option \<Rightarrow> (FileSystemDescription \<Rightarrow> bool) \<Rightarrow> 'w
     \<Rightarrow> (error + FileSystemDescription option list) \<times> 'w" where
  "findFileSystems conn input flt w =
     (case DescribeFileSystemsPagesWithContext conn input w of
        ((pages, err), w') \<Rightarrow>
          (let output = concat (map (pageMatches flt) pages)
           in if ErrCodeEquals err ErrCodeFileSystemNotFound
              then (Inl (NotFoundError err 0), w')
              else case err of
                     Some e \<Rightarrow> (Inl e, w')
                   | None \<Rightarrow> (Inr output, w')))"

definition findFileSystem ::
  "'w AWSClient \<Rightarrow> string option \<Rightarrow> (FileSystemDescription \<Rightarrow> bool) \<Rightarrow> 'w
     \<Rightarrow> (error + FileSystemDescription) \<times> 'w" where
  "findFileSystem conn input flt w =
     (case findFileSystems conn input flt w of
        (Inl err, w') \<Rightarrow> (Inl err, w')
      | (Inr output, w') \<Rightarrow> (AssertSinglePtrResult output, w'))"

definition FindFileSystemByID ::
  "'w AWSClient \<Rightarrow> string \<Rightarrow> 'w \<Rightarrow> (error + FileSystemDescription) \<times> 'w" where
  "FindFileSystemByID conn ident w = findFileSystem conn (Some ident) (\<lambda>v. True) w"

section \<open>Waiting for a file system\<close>

definition statusFileSystemLifeCycleState ::
  "'w AWSClient \<Rightarrow> string \<Rightarrow> 'w \<Rightarrow> (FileSystemDescription option \<times> string \<times> error option) \<times> 'w" where
  "statusFileSystemLifeCycleState conn ident = (\<lambda>w.
     (case FindFileSystemByID conn ident w of
        (Inl err, w') \<Rightarrow>
          if NotFound (Some err) then ((None, [], None), w')
          else ((None, [], Some err), w')
      | (Inr output, w') \<Rightarrow>
          ((Some output, StringValue (LifeCycleState output), None), w')))"

definition fileSystemAvailableTimeout :: Duration where
  "fileSystemAvailableTimeout = 10 * Minute"

definition fileSystemAvailableDelayTimeout :: Duration where
  "fileSystemAvailableDelayTimeout = 2 * Second"

definition fileSystemAvailableMinTimeout :: Duration where
  "fileSystemAvailableMinTimeout = 3 * Second"

definition fileSystemDeletedTimeout :: Duration where
  "fileSystemDeletedTimeout = 10 * Minute"

definition fileSystemDeletedDelayTimeout :: Duration where
  "fileSystemDeletedDelayTimeout = 2 * Second"

definition fileSystemDeletedMinTimeout :: Duration where
  "fileSystemDeletedMinTimeout = 3 * Second"

text \<open>
  The two waits. \<open>sched\<close> says how the wait is cut off: the interrupt and the number of
  polls before it (see \<open>WaitForStateContext\<close>). A result of the wait is a file system
  description or nil, so the type assertion on it changes nothing.
\<close>

definition waitFileSystemAvailable ::
  "'w AWSClient \<Rightarrow> interrupt \<times> nat \<Rightarrow> string \<Rightarrow> 'w
     \<Rightarrow> (FileSystemDescription option \<times> error option) \<times> 'w" where
  "waitFileSystemAvailable conn sched fileSystemID w =
     (let stateConf = (emptyStateChangeConf (statusFileSystemLifeCycleState conn fileSystemID))
            \<lparr> Pending := [LifeCycleStateCreating, LifeCycleStateUpdating],
              Target := [LifeCycleStateAvailable],
              Timeout := fileSystemAvailableTimeout,
              Delay := fileSystemAvailableDelayTimeout,
              MinTimeout := fileSystemAvailableMinTimeout \<rparr>
      in WaitForStateContext stateConf (fst sched) (snd sched) w)"

definition waitFileSystemDeleted ::
  "'w AWSClient \<Rightarrow> interrupt \<times> nat \<Rightarrow> string \<Rightarrow> 'w
     \<Rightarrow> (FileSystemDescription option \<times> error option) \<times> 'w" where
  "waitFileSystemDeleted conn sched fileSystemID w =
     (let stateConf = (emptyStateChangeConf (statusFileSystemLifeCycleState conn fileSystemID))
            \<lparr> Pending := [LifeCycleStateAvailable, LifeCycleStateDeleting],
              Target := [],
              Timeout := fileSystemDeletedTimeout,
              Delay := fileSystemDeletedDelayTimeout,
              MinTimeout := fileSystemDeletedMinTimeout \<rparr>
      in WaitForStateContext stateConf (fst sched) (snd sched) w)"

section \<open>The handlers of the resource\<close>

definition finish :: "diagnostic list \<Rightarrow> ResourceData \<Rightarrow> Tags option \<Rightarrow> 'w \<Rightarrow> 'w outcome" where
  "finish ds d t w = \<lparr> diags = ds, rdata = d, tagsOut = t, world = w \<rparr>"

text \<open>
  Lines 188 to 222 of \<open>resourceFileSystemCreate\<close>: the request. \<open>tagsIn\<close> are the tags
  of the context (\<open>getTagsIn\<close>), \<open>uid\<close> is what \<open>id.UniqueId()\<close> returns when it is called.
\<close>

definition createFileSystemInput :: "ResourceData \<Rightarrow> Tags \<Rightarrow> string \<Rightarrow> CreateFileSystemInput" where
  "createFileSystemInput d tagsIn uid =
     (let creationToken = (case GetOk_string (attr_creation_token d) of
                             (v, ok) \<Rightarrow> if ok then v else uid);
          throughputMode = Get_throughput_mode d;
          input0 = \<lparr> cfs_CreationToken = Some creationToken,
                     cfs_Tags = tagsIn,
                     cfs_ThroughputMode = Some throughputMode,
                     cfs_AvailabilityZoneName = None,
                     cfs_PerformanceMode = None,
                     cfs_ProvisionedThroughputInMibps = None,
                     cfs_Encrypted = None,
                     cfs_KmsKeyId = None \<rparr>;
          input1 = (case GetOk_string (attr_availability_zone_name d) of
                      (v, ok) \<Rightarrow> if ok then input0\<lparr>cfs_AvailabilityZoneName := Some v\<rparr>
                                else input0);
          input2 = (case GetOk_string (attr_performance_mode d) of
                      (v, ok) \<Rightarrow> if ok then input1\<lparr>cfs_PerformanceMode := Some v\<rparr> else input1);
          input3 = (if throughputMode = ThroughputModeProvisioned
                    then input2\<lparr>cfs_ProvisionedThroughputInMibps :=
                                   Some (Get_provisioned_throughput_in_mibps d)\<rparr>
                    else input2);
          input4 = (case GetOk_bool (attr_encrypted d) of
                      (encrypted, hasEncrypted) \<Rightarrow>
                        if hasEncrypted then input3\<lparr>cfs_Encrypted := Some encrypted\<rparr> else input3);
          input5 = (case GetOk_string (attr_kms_key_id d) of
                      (kmsKeyId, hasKmsKeyId) \<Rightarrow>
                        if hasKmsKeyId then input4\<lparr>cfs_KmsKeyId := Some kmsKeyId\<rparr> else input4)
      in input5)"

text \<open>Lines 326 to 334 of \<open>resourceFileSystemUpdate\<close>: the request.\<close>

definition updateFileSystemInput :: "ResourceData \<Rightarrow> UpdateFileSystemInput" where
  "updateFileSystemInput d =
     (let throughputMode = Get_throughput_mode d;
          input = \<lparr> ufs_FileSystemId = Some (resId d),
                    ufs_ThroughputMode = Some throughputMode,
                    ufs_ProvisionedThroughputInMibps = None \<rparr>
      in if throughputMode = ThroughputModeProvisioned
         then input\<lparr>ufs_ProvisionedThroughputInMibps :=
                      Some (Get_provisioned_throughput_in_mibps d)\<rparr>
         else input)"

definition resourceFileSystemRead :: "'w AWSClient \<Rightarrow> ResourceData \<Rightarrow> 'w \<Rightarrow> 'w outcome" where
  "resourceFileSystemRead meta d w =
     (case FindFileSystemByID meta (resId d) w of
        (found, w1) \<Rightarrow>
          (let err = (case found of Inl e \<Rightarrow> Some e | Inr fs \<Rightarrow> None)
           in if \<not> isNewResource d \<and> NotFound err then finish [] (d\<lparr>resId := []\<rparr>) None w1
              else case found of
                Inl e \<Rightarrow>
                  finish [DiagErrorf (''reading EFS file system ('' @ resId d @ '')'') e] d None w1
              | Inr fs \<Rightarrow>
                  (let d1 = d\<lparr> attr_arn := FileSystemArn fs,
                               attr_availability_zone_id := AvailabilityZoneId fs,
                               attr_availability_zone_name := AvailabilityZoneName fs,
                               attr_creation_token := CreationToken fs,
                               attr_dns_name := Some (RegionalHostname meta
                                  (StringValue (FileSystemId fs) @ ''.efs'')),
                               attr_encrypted := Encrypted fs,
                               attr_kms_key_id := KmsKeyId fs,
                               attr_name := Name fs,
                               attr_number_of_mount_targets := NumberOfMountTargets fs,
                               attr_owner_id := OwnerId fs,
                               attr_performance_mode := PerformanceMode fs \<rparr>;
                       protection = flattenFileSystemProtection (FileSystemProtection fs)
                   in case SetListError meta ''protection'' protection of
                        Some e \<Rightarrow> finish [DiagErrorf ''setting protection'' e] d1 None w1
                      | None \<Rightarrow>
                          (let d2 = d1\<lparr> attr_protection := Some protection,
                                        attr_provisioned_throughput_in_mibps :=
                                          ProvisionedThroughputInMibps fs \<rparr>;
                               sizeInBytes = flattenFileSystemSizeInBytes (SizeInBytes fs)
                           in case SetListError meta ''size_in_bytes'' sizeInBytes of
                                Some e \<Rightarrow> finish [DiagErrorf ''setting size_in_bytes'' e] d2 None w1
                              | None \<Rightarrow>
                                  (let d3 = d2\<lparr> attr_size_in_bytes := Some sizeInBytes,
                                                attr_throughput_mode := ThroughputMode fs \<rparr>;
                                       tags = Some (FileSystemTags fs)
                                   in case DescribeLifecycleConfigurationWithContext meta
                                             (Some (resId d)) w1 of
                                        (Inl e, w2) \<Rightarrow>
                                          finish [DiagErrorf (''reading EFS file system (''
                                                    @ resId d @ '') lifecycle configuration'') e]
                                            d3 tags w2
                                      | (Inr policies, w2) \<Rightarrow>
                                          (let lifecycle = flattenFileSystemLifecyclePolicies policies
                                           in case SetListError meta ''lifecycle_policy'' lifecycle of
                                                Some e \<Rightarrow>
                                                  finish [DiagErrorf ''setting lifecycle_policy'' e]
                                                    d3 tags w2
                                              | None \<Rightarrow>
                                                  finish []
                                                    (d3\<lparr>attr_lifecycle_policy := Some lifecycle\<rparr>)
                                                    tags w2))))))"

text \<open>
  The \<open>lifecycle_policy\<close> and \<open>protection\<close> steps that create and update share (lines 240
  to 261, 347 to 377): the diagnostics of the step, empty when it went through, and the
  remote service after it.
\<close>

definition putLifecycle ::
  "'w AWSClient \<Rightarrow> ResourceData \<Rightarrow> iface list \<Rightarrow> 'w \<Rightarrow> diagnostic list \<times> 'w" where
  "putLifecycle meta d v w =
     (let input = \<lparr> plc_FileSystemId = Some (resId d),
                     plc_LifecyclePolicies = expandFileSystemLifecyclePolicies v \<rparr>
      in case PutLifecycleConfigurationWithContext meta input w of
           (Some e, w') \<Rightarrow>
             ([DiagErrorf (''putting EFS file system ('' @ resId d
                             @ '') lifecycle configuration'') e], w')
         | (None, w') \<Rightarrow> ([], w'))"

definition updateProtection ::
  "'w AWSClient \<Rightarrow> ResourceData \<Rightarrow> 'w \<Rightarrow> diagnostic list \<times> 'w" where
  "updateProtection meta d w =
     (case GetOk_list (attr_protection d) of
        (v, ok) \<Rightarrow>
          if ok \<and> length v > 0 \<and> hd v \<noteq> INil
          then (case hd v of
                  IMap tfMap \<Rightarrow>
                    (case UpdateFileSystemProtectionWithContext meta
                            (expandUpdateFileSystemProtectionInput (resId d) (Some tfMap)) w of
                       (Some e, w') \<Rightarrow>
                         ([DiagErrorf (''updating EFS file system ('' @ resId d
                                         @ '') protection'') e], w')
                     | (None, w') \<Rightarrow> ([], w'))
                | _ \<Rightarrow> ([DiagPanic ''interface conversion''], w))
          else ([], w))"

definition resourceFileSystemCreate ::
  "'w AWSClient \<Rightarrow> interrupt \<times> nat \<Rightarrow> Tags \<Rightarrow> string \<Rightarrow> ResourceData \<Rightarrow> 'w \<Rightarrow> 'w outcome" where
  "resourceFileSystemCreate meta sched tagsIn uid d w =
     (let input = createFileSystemInput d tagsIn uid;
          encrypted = fst (GetOk_bool (attr_encrypted d));
          hasKmsKeyId = snd (GetOk_string (attr_kms_key_id d))
      in if encrypted = False \<and> hasKmsKeyId
         then finish [DiagFromErr (ErrorString
                 ''encrypted must be set to true when kms_key_id is specified'')] d None w
         else case CreateFileSystemWithContext meta input w of
           (Inl e, w1) \<Rightarrow> finish [DiagErrorf ''creating EFS file system'' e] d None w1
         | (Inr output, w1) \<Rightarrow>
             (let d1 = d\<lparr>resId := StringValue (FileSystemId output)\<rparr>
              in case waitFileSystemAvailable meta sched (resId d1) w1 of
                   ((uu, Some e), w2) \<Rightarrow>
                     finish [DiagErrorf (''waiting for EFS file system ('' @ resId d1
                                           @ '') create'') e] d1 None w2
                 | ((uu, None), w2) \<Rightarrow>
                     (case (case GetOk_list (attr_lifecycle_policy d1) of
                              (v, ok) \<Rightarrow> if ok then putLifecycle meta d1 v w2 else ([], w2)) of
                        (e # es, w3) \<Rightarrow> finish (e # es) d1 None w3
                      | ([], w3) \<Rightarrow>
                          (case updateProtection meta d1 w3 of
                             (e # es, w4) \<Rightarrow> finish (e # es) d1 None w4
                           | ([], w4) \<Rightarrow> resourceFileSystemRead meta d1 w4))))"

definition resourceFileSystemUpdate ::
  "'w AWSClient \<Rightarrow> interrupt \<times> nat \<Rightarrow> ResourceData \<Rightarrow> 'w \<Rightarrow> 'w outcome" where
  "resourceFileSystemUpdate meta sched d w =
     (case (if HasChanges d [''provisioned_throughput_in_mibps'', ''throughput_mode'']
            then (case UpdateFileSystemWithContext meta (updateFileSystemInput d) w of
                    (Some e, w1) \<Rightarrow>
                      ([DiagErrorf (''updating EFS file system ('' @ resId d @ '')'') e], w1)
                  | (None, w1) \<Rightarrow>
                      (case waitFileSystemAvailable meta sched (resId d) w1 of
                         ((uu, Some e), w2) \<Rightarrow>
                           ([DiagErrorf (''waiting for EFS file system ('' @ resId d
                                           @ '') update'') e], w2)
                       | ((uu, None), w2) \<Rightarrow> ([], w2)))
            else ([], w)) of
        (e # es, w2) \<Rightarrow> finish (e # es) d None w2
      | ([], w2) \<Rightarrow>
          (case (if HasChange d ''lifecycle_policy''
                 then putLifecycle meta d (Get_lifecycle_policy d) w2 else ([], w2)) of
             (e # es, w3) \<Rightarrow> finish (e # es) d None w3
           | ([], w3) \<Rightarrow>
               (case (if HasChanges d [''protection''] then updateProtection meta d w3
                      else ([], w3)) of
                  (e # es, w4) \<Rightarrow> finish (e # es) d None w4
                | ([], w4) \<Rightarrow> resourceFileSystemRead meta d w4)))"


section \<open>An example client\<close>

text \<open>
  A resource data with nothing set, and a remote service for examples: its state is the
  list of the life cycle states that the next calls of DescribeFileSystems will see, and
  the file system is gone when the list is empty. Creating is not permitted there.
\<close>

definition exampleData :: ResourceData where
  "exampleData = \<lparr> resId = [], isNewResource = True, changedKeys = [],
     attr_arn = None, attr_availability_zone_id = None, attr_availability_zone_name = None,
     attr_creation_token = None, attr_dns_name = None, attr_encrypted = None,
     attr_kms_key_id = None, attr_lifecycle_policy = None, attr_name = None,
     attr_number_of_mount_targets = None, attr_owner_id = None, attr_performance_mode = None,
     attr_protection = None, attr_provisioned_throughput_in_mibps = None,
     attr_size_in_bytes = None, attr_throughput_mode = None \<rparr>"

definition exampleFileSystem :: "string option \<Rightarrow> string \<Rightarrow> FileSystemDescription" where
  "exampleFileSystem ident st = \<lparr> FileSystemArn = None, AvailabilityZoneId = None,
     AvailabilityZoneName = None, CreationToken = None, FileSystemId = ident,
     Encrypted = Some False, KmsKeyId = None, LifeCycleState = Some st, Name = None,
     NumberOfMountTargets = Some 0, OwnerId = None, PerformanceMode = None,
     FileSystemProtection = None, ProvisionedThroughputInMibps = None, SizeInBytes = None,
     ThroughputMode = Some ''bursting'', FileSystemTags = [] \<rparr>"

definition goneError :: error where
  "goneError = AWSError ''FileSystemNotFound'' ''file system does not exist''"

definition deniedError :: error where
  "deniedError = AWSError ''AccessDeniedException'' ''not authorized''"

definition scriptedClient :: "string list AWSClient" where
  "scriptedClient = \<lparr>
     CreateFileSystemWithContext = (\<lambda>input w. (Inl deniedError, w)),
     DescribeFileSystemsPagesWithContext = (\<lambda>ident w.
        case w of
          [] \<Rightarrow> (([], Some goneError), [])
        | st # rest \<Rightarrow> (([Some [Some (exampleFileSystem ident st)]], None), rest)),
     DeleteFileSystemWithContext = (\<lambda>ident w. (if w = [] then Some goneError else None, w)),
     PutLifecycleConfigurationWithContext = (\<lambda>input w. (None, w)),
     UpdateFileSystemProtectionWithContext = (\<lambda>input w. (None, w)),
     UpdateFileSystemWithContext = (\<lambda>input w. (None, w)),
     DescribeLifecycleConfigurationWithContext = (\<lambda>ident w. (Inr [], w)),
     RegionalHostname = (\<lambda>prefix. prefix @ ''.us-east-1.amazonaws.com''),
     SetListError = (\<lambda>k v. None) \<rparr>"

text \<open>What \<open>d.GetOk\<close> reports as set: a string that is given and not empty.\<close>

definition configuredString :: "string option \<Rightarrow> string option" where
  "configuredString p = (case p of None \<Rightarrow> None | Some v \<Rightarrow> if v = [] then None else Some v)"

section \<open>Observing the polls of a wait\<close>

text \<open>
  What one call of DescribeFileSystems returns, and the client that also appends the
  result of each such call to a list kept beside the state of the service: the polls, in
  order.
\<close>

type_synonym describeResult = "FileSystemDescription option list option list \<times> error option"

definition loggedClient :: "'w AWSClient \<Rightarrow> ('w \<times> describeResult list) AWSClient" where
  "loggedClient c = \<lparr>
     CreateFileSystemWithContext = (\<lambda>input (w, log).
        case CreateFileSystemWithContext c input w of (r, w') \<Rightarrow> (r, (w', log))),
     DescribeFileSystemsPagesWithContext = (\<lambda>input (w, log).
        case DescribeFileSystemsPagesWithContext c input w of (r, w') \<Rightarrow> (r, (w', log @ [r]))),
     DeleteFileSystemWithContext = (\<lambda>input (w, log).
        case DeleteFileSystemWithContext c input w of (r, w') \<Rightarrow> (r, (w', log))),
     PutLifecycleConfigurationWithContext = (\<lambda>input (w, log).
        case PutLifecycleConfigurationWithContext c input w of (r, w') \<Rightarrow> (r, (w', log))),
     UpdateFileSystemProtectionWithContext = (\<lambda>input (w, log).
        case UpdateFileSystemProtectionWithContext c input w of (r, w') \<Rightarrow> (r, (w', log))),
     UpdateFileSystemWithContext = (\<lambda>input (w, log).
        case UpdateFileSystemWithContext c input w of (r, w') \<Rightarrow> (r, (w', log))),
     DescribeLifecycleConfigurationWithContext = (\<lambda>input (w, log).
        case DescribeLifecycleConfigurationWithContext c input w of (r, w') \<Rightarrow> (r, (w', log))),
     RegionalHostname = RegionalHostname c,
     SetListError = SetListError c \<rparr>"

text \<open>
  What \<open>statusFileSystemLifeCycleState\<close> makes of the result of the call: the file system
  with its life cycle state, nothing (no file system is found, or more than one, which
  \<open>NotFound\<close> holds of as well), or an error.
\<close>

definition foundIn :: "describeResult \<Rightarrow> error + FileSystemDescription" where
  "foundIn r =
     (case r of (pages, err) \<Rightarrow>
        if ErrCodeEquals err ErrCodeFileSystemNotFound then Inl (NotFoundError err 0)
        else case err of
               Some e \<Rightarrow> Inl e
             | None \<Rightarrow> AssertSinglePtrResult (concat (map (pageMatches (\<lambda>v. True)) pages)))"

definition observe :: "describeResult \<Rightarrow> FileSystemDescription option \<times> string \<times> error option" where
  "observe r =
     (case foundIn r of
        Inl err \<Rightarrow> if NotFound (Some err) then (None, [], None) else (None, [], Some err)
      | Inr output \<Rightarrow> (Some output, StringValue (LifeCycleState output), None))"

datatype observation = Found FileSystemDescription string | Missing | Failed error

definition observation :: "describeResult \<Rightarrow> observation" where
  "observation r =
     (case observe r of
        (uu, st, Some e) \<Rightarrow> Failed e
      | (None, st, None) \<Rightarrow> Missing
      | (Some fs, st, None) \<Rightarrow> Found fs st)"

text \<open>
  A refresh result after which a wait with pending states \<open>P\<close> and target states \<open>T\<close>
  polls again, and one with which it has reached its target.
\<close>

definition pollAgain ::
  "string list \<Rightarrow> string list \<Rightarrow> 'r option \<times> string \<times> error option \<Rightarrow> bool" where
  "pollAgain P T x =
     (case x of (res, st, err) \<Rightarrow>
        err = None \<and> (if res = None then T \<noteq> [] else st \<notin> set T \<and> (st \<in> set P \<or> P = [])))"

definition reached :: "string list \<Rightarrow> 'r option \<times> string \<times> error option \<Rightarrow> bool" where
  "reached T x =
     (case x of (res, st, err) \<Rightarrow> err = None \<and> (if res = None then T = [] else st \<in> set T))"

text \<open>The error of a wait that is cut off after a poll that saw the state \<open>st\<close>.\<close>

definition interruptErr :: "('r, 's) StateChangeConf \<Rightarrow> interrupt \<Rightarrow> string \<Rightarrow> error" where
  "interruptErr c intr st =
     (case intr of
        Cancelled \<Rightarrow> ContextError
      | TimedOut g \<Rightarrow> TimeoutError None st (Timeout c) (Target c))"

text \<open>
  What a run of the poll loop that logged the polls \<open>new\<close> returns: the result \<open>res\<close>
  and the error \<open>werr\<close>. \<open>f\<close> gives the refresh result of a logged poll, \<open>st0\<close> is the
  state that the poll before the run saw.
\<close>

definition pollsOK ::
  "('r, 's) StateChangeConf \<Rightarrow> interrupt \<Rightarrow> ('a \<Rightarrow> 'r option \<times> string \<times> error option)
     \<Rightarrow> string \<Rightarrow> 'a list \<Rightarrow> 'r option \<Rightarrow> error option \<Rightarrow> bool" where
  "pollsOK c intr f st0 new res werr =
     ((\<forall>x \<in> set (butlast new). pollAgain (Pending c) (Target c) (f x)) \<and>
      (if new = [] then werr = Some (interruptErr c intr st0)
       else (if reached (Target c) (f (last new)) then werr = None \<and> res = fst (f (last new))
             else werr \<noteq> None \<and>
                  (pollAgain (Pending c) (Target c) (f (last new)) \<and> fst (f (last new)) \<noteq> None
                     \<longrightarrow> werr = Some (interruptErr c intr (fst (snd (f (last new)))))))))"

text \<open>Two configurations of a wait that differ in the logging of the polls only.\<close>

definition samePolls :: "('r, 's \<times> 'a list) StateChangeConf \<Rightarrow> ('r, 's) StateChangeConf \<Rightarrow> ('s \<Rightarrow> 'a) \<Rightarrow> bool" where
  "samePolls c1 c2 g =
     ((\<forall>w log. Refresh c1 (w, log) = (case Refresh c2 w of (x, w1) \<Rightarrow> (x, (w1, log @ [g w])))) \<and>
      Target c1 = Target c2 \<and> Pending c1 = Pending c2 \<and> Timeout c1 = Timeout c2 \<and>
      NotFoundChecks c1 = NotFoundChecks c2 \<and>
      ContinuousTargetOccurence c1 = ContinuousTargetOccurence c2)"

text \<open>The configurations that \<open>waitFileSystemAvailable\<close> and \<open>waitFileSystemDeleted\<close> build.\<close>

definition availableConf ::
  "'w AWSClient \<Rightarrow> string \<Rightarrow> (FileSystemDescription, 'w) StateChangeConf" where
  "availableConf conn fileSystemID =
     (emptyStateChangeConf (statusFileSystemLifeCycleState conn fileSystemID))
        \<lparr> Pending := [LifeCycleStateCreating, LifeCycleStateUpdating],
          Target := [LifeCycleStateAvailable],
          Timeout := fileSystemAvailableTimeout,
          Delay := fileSystemAvailableDelayTimeout,
          MinTimeout := fileSystemAvailableMinTimeout \<rparr>"

definition deletedConf ::
  "'w AWSClient \<Rightarrow> string \<Rightarrow> (FileSystemDescription, 'w) StateChangeConf" where
  "deletedConf conn fileSystemID =
     (emptyStateChangeConf (statusFileSystemLifeCycleState conn fileSystemID))
        \<lparr> Pending := [LifeCycleStateAvailable, LifeCycleStateDeleting],
          Target := [],
          Timeout := fileSystemDeletedTimeout,
          Delay := fileSystemDeletedDelayTimeout,
          MinTimeout := fileSystemDeletedMinTimeout \<rparr>"

text \<open>
  What a poll can see, for each of the two waits: a file system in a pending state, and
  what makes the wait fail, an error of the refresh or a file system in a state that is
  neither pending nor the target.
\<close>

definition pendingAvailable :: "observation \<Rightarrow> bool" where
  "pendingAvailable x = (\<exists>fs st. x = Found fs st \<and>
      (st = LifeCycleStateCreating \<or> st = LifeCycleStateUpdating))"

definition pendingDeleted :: "observation \<Rightarrow> bool" where
  "pendingDeleted x = (\<exists>fs st. x = Found fs st \<and>
      (st = LifeCycleStateAvailable \<or> st = LifeCycleStateDeleting))"

definition unexpectedAvailable :: "observation \<Rightarrow> bool" where
  "unexpectedAvailable x = ((\<exists>e. x = Failed e) \<or>
      (\<exists>fs st. x = Found fs st \<and> st \<noteq> LifeCycleStateCreating
         \<and> st \<noteq> LifeCycleStateUpdating \<and> st \<noteq> LifeCycleStateAvailable))"

definition unexpectedDeleted :: "observation \<Rightarrow> bool" where
  "unexpectedDeleted x = ((\<exists>e. x = Failed e) \<or>
      (\<exists>fs st. x = Found fs st \<and> st \<noteq> LifeCycleStateAvailable
         \<and> st \<noteq> LifeCycleStateDeleting))"

text \<open>
  The error of a wait that is cut off while the file system is in the state \<open>st\<close>: the
  context's error, or the timeout error with the last state.
\<close>

definition cutOff :: "interrupt \<Rightarrow> string \<Rightarrow> Duration \<Rightarrow> string list \<Rightarrow> error" where
  "cutOff intr st timeout target =
     (case intr of Cancelled \<Rightarrow> ContextError | TimedOut g \<Rightarrow> TimeoutError None st timeout target)"

text \<open>The diagnostic of line 225, and the diagnostics of delete after its wait.\<close>

definition encryptedError :: diagnostic where
  "encryptedError = DiagFromErr (ErrorString
     ''encrypted must be set to true when kms_key_id is specified'')"


section \<open>Properties of RetryConfigContext\<close>

lemma retry_round:
  assumes "retryShaped c" and "Refresh c = retryRefresh g"
  shows "refreshRound c nf 0 (re, s) =
    (case g s of
       (None, s') \<Rightarrow> (Finished (Some 42) ''success'' None True, (None, s'))
     | (Some r, s') \<Rightarrow>
         if Retryable r then (Continue 0 0 ''retryableerror'', (Err r, s'))
         else if Err r \<noteq> None then (Finished None ''quit'' (Err r) False, (Err r, s'))
         else if nf + 1 > NotFoundChecks c
         then (Finished None ''quit'' (Some (NotFoundError None (nf + 1))) False, (None, s'))
         else (Continue (nf + 1) 0 ''quit'', (None, s')))"
  using assms
  by (auto simp: refreshRound_def retryRefresh_def retryShaped_def split: prod.splits option.splits)

lemma traceOK_Cons:
  "continuing r \<Longrightarrow> traceOK re0 new re' werr \<Longrightarrow> re0 = errOf r \<Longrightarrow> werr \<noteq> None \<or> new \<noteq> [] \<Longrightarrow> traceOK re (r # new) re' werr"
  by (auto simp: traceOK_def continuing_def errOf_def split: option.splits if_splits)

lemma logged_apply: "logged f (s, log) = (fst (f s), (snd (f s), log @ [fst (f s)]))"
  by (simp add: logged_def split: prod.splits)

lemma wait_logged:
  assumes sh: "retryShaped c" and rf: "Refresh c = retryRefresh (logged f)"
  shows "waitLoop c intr n nf 0 st (re, (s, log0)) = ((res, werr), (re', (s', log')))
    \<Longrightarrow> \<exists>new. log' = log0 @ new \<and> traceOK re new re' werr"
proof (induction n arbitrary: nf st re s log0)
  case 0
  show ?case
  proof (cases intr)
    case Cancelled
    with 0 have "log' = log0 @ []" "traceOK re [] re' werr"
      by (auto simp: traceOK_def)
    then show ?thesis by blast
  next
    case (TimedOut g)
    show ?thesis
    proof (cases g)
      case False
      with 0 TimedOut have "log' = log0 @ []" "traceOK re [] re' werr"
        by (auto simp: traceOK_def)
      then show ?thesis by blast
    next
      case True
      with 0 TimedOut have "log' = log0 @ [fst (f s)]" "traceOK re [fst (f s)] re' werr"
        by (auto simp: retry_round[OF sh rf] logged_apply traceOK_def errOf_def
              split: prod.splits option.splits if_splits)
      then show ?thesis by blast
    qed
  qed
next
  case (Suc n)
  let ?r = "fst (f s)"
  show ?case
  proof (cases "continuing ?r")
    case False
    with Suc.prems have "log' = log0 @ [?r]" "traceOK re [?r] re' werr"
      by (auto simp: retry_round[OF sh rf] logged_apply traceOK_def errOf_def continuing_def
            split: prod.splits option.splits if_splits) metis+
    then show ?thesis by blast
  next
    case True
    then obtain r where r: "?r = Some r" "Retryable r \<or> Err r = None"
      by (auto simp: continuing_def split: option.splits)
    show ?thesis
    proof (cases "\<not> Retryable r \<and> nf + 1 > NotFoundChecks c")
      case True
      with r Suc.prems have "log' = log0 @ [?r]" "traceOK re [?r] re' werr"
        by (auto simp: retry_round[OF sh rf] logged_apply traceOK_def errOf_def
              split: prod.splits option.splits if_splits)
      then show ?thesis by blast
    next
      case False
      with r Suc.prems obtain nf' st' where
        w: "waitLoop c intr n nf' 0 st' (Err r, (snd (f s), log0 @ [?r])) = ((res, werr), (re', (s', log')))"
        by (auto simp: retry_round[OF sh rf] logged_apply split: prod.splits option.splits if_splits)
      from Suc.IH[OF w] obtain new where n: "log' = (log0 @ [?r]) @ new" "traceOK (Err r) new re' werr"
        by blast
      have "werr \<noteq> None \<or> new \<noteq> []" using n(2) by (auto simp: traceOK_def split: if_splits)
      with n(2) r \<open>continuing ?r\<close> have "traceOK re (?r # new) re' werr"
        by (intro traceOK_Cons[where ?re0.0 = "Err r"]) (auto simp: errOf_def)
      with n(1) show ?thesis by auto
    qed
  qed
qed

lemma round_sim:
  assumes "sameWait c1 c2 f"
  shows "refreshRound c1 nf occ (re, (s, log)) =
     (case refreshRound c2 nf occ (re, s) of
        (rd, (re', s')) \<Rightarrow> (rd, (re', (s', log @ [fst (f s)]))))"
proof -
  obtain r s1 where fs: "f s = (r, s1)" by (cases "f s")
  have r1: "Refresh c1 (re, (s, log)) = (case r of
           None \<Rightarrow> ((Some 42, ''success'', None), (None, (s1, log @ [r])))
         | Some x \<Rightarrow>
             if Retryable x then ((Some 42, ''retryableerror'', None), (Err x, (s1, log @ [r])))
             else ((None, ''quit'', Err x), (Err x, (s1, log @ [r]))))"
    using assms fs by (simp add: sameWait_def retryRefresh_def logged_apply)
  have r2: "Refresh c2 (re, s) = (case r of
           None \<Rightarrow> ((Some 42, ''success'', None), (None, s1))
         | Some x \<Rightarrow>
             if Retryable x then ((Some 42, ''retryableerror'', None), (Err x, s1))
             else ((None, ''quit'', Err x), (Err x, s1)))"
    using assms fs by (simp add: sameWait_def retryRefresh_def)
  have eqs: "Target c1 = Target c2" "Pending c1 = Pending c2"
    "NotFoundChecks c1 = NotFoundChecks c2"
    "ContinuousTargetOccurence c1 = ContinuousTargetOccurence c2"
    using assms by (simp_all add: sameWait_def)
  show ?thesis
  proof (cases r)
    case None
    then show ?thesis
      unfolding refreshRound_def r1 r2 eqs using fs
      by (auto split: prod.split)
  next
    case (Some x)
    then show ?thesis
      unfolding refreshRound_def r1 r2 eqs using fs
      by (cases "Retryable x"; cases "Err x") (auto split: prod.split)
  qed
qed

lemma wait_sim:
  assumes sw: "sameWait c1 c2 f"
  shows "waitLoop c1 intr n nf occ st (re, (s, log)) = ((res, werr), (re', (s', log')))
    \<Longrightarrow> waitLoop c2 intr n nf occ st (re, s) = ((res, werr), (re', s'))"
proof (induction n arbitrary: nf occ st re s log)
  case 0
  have eqs: "Timeout c1 = Timeout c2" "Target c1 = Target c2"
    using sw by (simp_all add: sameWait_def)
  show ?case
  proof (cases intr)
    case Cancelled
    with 0 show ?thesis by simp
  next
    case (TimedOut g)
    show ?thesis
    proof (cases g)
      case False
      with 0 TimedOut eqs show ?thesis by simp
    next
      case True
      show ?thesis
      proof -
        obtain rd re1 s1 where Pair: "refreshRound c2 nf occ (re, s) = (rd, (re1, s1))"
          by (cases "refreshRound c2 nf occ (re, s)") auto
        note t = refl
        show ?thesis
        proof (cases rd)
          case (Finished a b c d)
          with 0 TimedOut True Pair t eqs show ?thesis
            by (cases d) (simp_all add: round_sim[OF sw])
        next
          case (Continue nf1 occ1 st1)
          with 0 TimedOut True Pair t eqs show ?thesis
            by (simp add: round_sim[OF sw])
        qed
      qed
    qed
  qed
next
  case (Suc n)
  show ?case
  proof -
    obtain rd re1 s1 where Pair: "refreshRound c2 nf occ (re, s) = (rd, (re1, s1))"
      by (cases "refreshRound c2 nf occ (re, s)") auto
    note t = refl
    show ?thesis
    proof (cases rd)
      case (Finished a b c d)
      with Suc.prems Pair t show ?thesis by (simp add: round_sim[OF sw])
    next
      case (Continue nf1 occ1 st1)
      with Suc.prems Pair t
      have "waitLoop c1 intr n nf1 occ1 st1 (re1, (s1, log @ [fst (f s)])) = ((res, werr), (re', (s', log')))"
        by (simp add: round_sim[OF sw])
      from Suc.IH[OF this] show ?thesis using Pair t Continue by simp
    qed
  qed
qed

lemma retryConf_shape:
  "Refresh (retryStateChangeConf raw delay delayRand minTimeout pollInterval timeout g) = retryRefresh g"
  "Target (retryStateChangeConf raw delay delayRand minTimeout pollInterval timeout g) = [''success'']"
  "Pending (retryStateChangeConf raw delay delayRand minTimeout pollInterval timeout g) = [''retryableerror'']"
  "Timeout (retryStateChangeConf raw delay delayRand minTimeout pollInterval timeout g) = timeout"
  "NotFoundChecks (retryStateChangeConf raw delay delayRand minTimeout pollInterval timeout g) = 0"
  "ContinuousTargetOccurence (retryStateChangeConf raw delay delayRand minTimeout pollInterval timeout g) = 0"
  by (simp_all add: retryStateChangeConf_def emptyStateChangeConf_def retryShaped_def Let_def)

lemma WaitForStateContext_alt:
  "WaitForStateContext conf intr polls s = waitLoop (withDefaults conf) intr polls 0 0 [] s"
  by (simp add: WaitForStateContext_def)

lemma withDefaults_retry:
  "retryShaped (withDefaults (retryStateChangeConf raw delay delayRand minTimeout pollInterval timeout g))"
  "Refresh (withDefaults (retryStateChangeConf raw delay delayRand minTimeout pollInterval timeout g)) = retryRefresh g"
  "Timeout (withDefaults (retryStateChangeConf raw delay delayRand minTimeout pollInterval timeout g)) = timeout"
  "Target (withDefaults (retryStateChangeConf raw delay delayRand minTimeout pollInterval timeout g)) = [''success'']"
  "Pending (withDefaults (retryStateChangeConf raw delay delayRand minTimeout pollInterval timeout g)) = [''retryableerror'']"
  "NotFoundChecks (withDefaults (retryStateChangeConf raw delay delayRand minTimeout pollInterval timeout g)) = 20"
  "ContinuousTargetOccurence (withDefaults (retryStateChangeConf raw delay delayRand minTimeout pollInterval timeout g)) = 1"
  by (simp_all add: withDefaults_def retryConf_shape retryShaped_def Let_def)

lemma sameWait_retry:
  "sameWait (withDefaults (retryStateChangeConf raw delay delayRand minTimeout pollInterval timeout (logged f)))
            (withDefaults (retryStateChangeConf raw delay delayRand minTimeout pollInterval timeout f)) f"
  by (simp add: sameWait_def withDefaults_retry)

lemma wait_retryable_timeout:
  assumes sh: "retryShaped c" and rf: "Refresh c = retryRefresh (logged f)"
  shows "waitLoop c (TimedOut g) n nf 0 st (re, (s, log0)) = ((res, werr), (re', (s', log0 @ new)))
    \<Longrightarrow> \<forall>x\<in>set new. \<exists>r. x = Some r \<and> Retryable r
    \<Longrightarrow> werr = Some (TimeoutError None (if new = [] then st else ''retryableerror'')
                 (Timeout c) (Target c))"
proof (induction n arbitrary: nf st re s log0 new)
  case 0
  show ?case
  proof (cases g)
    case False
    with 0 show ?thesis by auto
  next
    case True
    with 0 show ?thesis
      by (auto simp: retry_round[OF sh rf] logged_apply
            split: prod.splits option.splits if_splits)
  qed
next
  case (Suc n)
  let ?r = "fst (f s)"
  from wait_logged[OF sh rf Suc.prems(1)] obtain new0 where eq0: "log0 @ new = log0 @ new0"
    by blast
  show ?case
  proof (cases "\<exists>r. ?r = Some r \<and> Retryable r")
    case True
    then obtain r where r: "?r = Some r" "Retryable r" by blast
    with Suc.prems(1) have
      w: "waitLoop c (TimedOut g) n 0 0 ''retryableerror'' (Err r, (snd (f s), log0 @ [?r]))
            = ((res, werr), (re', (s', log0 @ new)))"
      by (auto simp: retry_round[OF sh rf] logged_apply split: prod.splits option.splits if_splits)
    from wait_logged[OF sh rf w] obtain new' where "log0 @ new = (log0 @ [?r]) @ new'"
      by blast
    then have n: "new = ?r # new'" by simp
    with w have w': "waitLoop c (TimedOut g) n 0 0 ''retryableerror'' (Err r, (snd (f s), log0 @ [?r]))
            = ((res, werr), (re', (s', (log0 @ [?r]) @ new')))" by simp
    have "\<forall>x\<in>set new'. \<exists>r. x = Some r \<and> Retryable r" using Suc.prems(2) n by simp
    from Suc.IH[OF w' this] show ?thesis using n by simp
  next
    case False
    have "\<exists>new'. new = ?r # new'"
    proof (cases "continuing ?r \<and> \<not> nf + 1 > NotFoundChecks c")
      case True
      with False obtain r where r: "?r = Some r" "\<not> Retryable r" "Err r = None"
        by (auto simp: continuing_def split: option.splits)
      with True Suc.prems(1) obtain nf' st' where
        w: "waitLoop c (TimedOut g) n nf' 0 st' (Err r, (snd (f s), log0 @ [?r]))
              = ((res, werr), (re', (s', log0 @ new)))"
        by (auto simp: retry_round[OF sh rf] logged_apply split: prod.splits option.splits if_splits)
      from wait_logged[OF sh rf w] obtain new' where "log0 @ new = (log0 @ [?r]) @ new'"
        by blast
      then show ?thesis by simp
    next
      case nc: False
      with False Suc.prems(1) have "log0 @ new = log0 @ [?r]"
        by (auto simp: retry_round[OF sh rf] logged_apply continuing_def
              split: prod.splits option.splits if_splits)
      then show ?thesis by simp
    qed
    with Suc.prems(2) False show ?thesis by auto
  qed
qed

text \<open>
  Claim C1. Run \<open>RetryConfigContext\<close> on any retry function \<open>f\<close>, with the
  invocations of \<open>f\<close> logged. The result is that of the run without the log, and
  \<^item> it is nil exactly when some invocation of \<open>f\<close> returned nil;
  \<^item> an invocation that returns a non-retryable error is the last one, and its error is
    the result;
  \<^item> when the timeout ends a wait in which every invocation returned a retryable error,
    the result is the error of the last invocation, although the wait itself returned
    the timeout error.
\<close>

theorem RetryConfigContext_result:
  assumes run: "RetryConfigContext intr polls raw delay delayRand minTimeout pollInterval timeout
                  (logged f) (s, []) = (res, (s', log))"
  shows "RetryConfigContext intr polls raw delay delayRand minTimeout pollInterval timeout f s = (res, s')
    \<and> (res = None \<longleftrightarrow> None \<in> set log)
    \<and> (\<forall>i r e. i < length log \<and> log ! i = Some r \<and> \<not> Retryable r \<and> Err r = Some e
          \<longrightarrow> Suc i = length log \<and> res = Some e)
    \<and> (\<forall>g e. intr = TimedOut g \<and> log \<noteq> [] \<and> (\<forall>x\<in>set log. \<exists>r. x = Some r \<and> Retryable r)
               \<and> errOf (last log) = Some e
          \<longrightarrow> res = Some e \<and>
              waitErrOf intr polls raw delay delayRand minTimeout pollInterval timeout f s
                = Some (TimeoutError None ''retryableerror'' timeout [''success'']))"
proof -
  let ?c1 = "withDefaults (retryStateChangeConf raw delay delayRand minTimeout pollInterval timeout (logged f))"
  let ?c2 = "withDefaults (retryStateChangeConf raw delay delayRand minTimeout pollInterval timeout f)"
  obtain r werr re' where
    w: "waitLoop ?c1 intr polls 0 0 [] (None, (s, [])) = ((r, werr), (re', (s', log)))"
    and res: "res = (if re' = None then werr else re')"
    using run
    by (auto simp: RetryConfigContext_def WaitForStateContext_alt Let_def
          split: prod.splits if_splits)
  have sh: "retryShaped ?c1" and rf: "Refresh ?c1 = retryRefresh (logged f)"
    by (simp_all add: withDefaults_retry)
  from wait_sim[OF sameWait_retry w]
  have w2: "waitLoop ?c2 intr polls 0 0 [] (None, s) = ((r, werr), (re', s'))" .
  then have A: "RetryConfigContext intr polls raw delay delayRand minTimeout pollInterval timeout f s = (res, s')"
    using res by (simp add: RetryConfigContext_def WaitForStateContext_alt Let_def)
  from wait_logged[OF sh rf w] have tr: "traceOK None log re' werr" by simp
  have notlast: "\<And>x. x \<in> set (butlast log) \<Longrightarrow> continuing x"
    using tr by (simp add: traceOK_def)
  have B: "res = None \<longleftrightarrow> None \<in> set log"
  proof (cases "log = []")
    case True
    with tr res show ?thesis by (auto simp: traceOK_def)
  next
    case False
    then have sp: "log = butlast log @ [last log]" by simp
    have "None \<in> set log \<longleftrightarrow> last log = None"
    proof
      assume "None \<in> set log"
      then have "None \<in> set (butlast log) \<or> None = last log"
        using sp by (metis Un_iff insert_iff list.set(2) set_append empty_iff list.set(1))
      then show "last log = None" using notlast[of None] by (auto simp: continuing_def)
    next
      assume "last log = None"
      then show "None \<in> set log" using False last_in_set by metis
    qed
    moreover have "res = None \<longleftrightarrow> last log = None"
      using tr res False by (auto simp: traceOK_def errOf_def split: option.splits)
    ultimately show ?thesis by simp
  qed
  have C: "\<forall>i r e. i < length log \<and> log ! i = Some r \<and> \<not> Retryable r \<and> Err r = Some e
          \<longrightarrow> Suc i = length log \<and> res = Some e"
  proof (intro allI impI)
    fix i r e
    assume h: "i < length log \<and> log ! i = Some r \<and> \<not> Retryable r \<and> Err r = Some e"
    then have ne: "log \<noteq> []" by auto
    have "\<not> i < length (butlast log)"
    proof
      assume "i < length (butlast log)"
      then have "butlast log ! i \<in> set (butlast log)" "butlast log ! i = log ! i"
        using nth_mem[of i "butlast log"] nth_butlast[of i log] by simp_all
      with notlast have "continuing (log ! i)" by metis
      with h show False by (simp add: continuing_def)
    qed
    with h have i: "Suc i = length log" by (simp add: less_diff_conv)
    then have "last log = log ! i" using ne by (metis diff_Suc_1 last_conv_nth)
    with h tr res ne have "res = Some e" by (auto simp: traceOK_def errOf_def)
    with i show "Suc i = length log \<and> res = Some e" by simp
  qed
  have D: "\<forall>g e. intr = TimedOut g \<and> log \<noteq> [] \<and> (\<forall>x\<in>set log. \<exists>r. x = Some r \<and> Retryable r)
               \<and> errOf (last log) = Some e
          \<longrightarrow> res = Some e \<and>
              waitErrOf intr polls raw delay delayRand minTimeout pollInterval timeout f s
                = Some (TimeoutError None ''retryableerror'' timeout [''success''])"
  proof (intro allI impI)
    fix g e
    assume h: "intr = TimedOut g \<and> log \<noteq> [] \<and> (\<forall>x\<in>set log. \<exists>r. x = Some r \<and> Retryable r)
               \<and> errOf (last log) = Some e"
    then have r1: "res = Some e" using tr res by (auto simp: traceOK_def)
    from w h have "waitLoop ?c1 (TimedOut g) polls 0 0 [] (None, (s, [])) = ((r, werr), (re', (s', [] @ log)))"
      by simp
    from wait_retryable_timeout[OF sh rf this] h
    have "werr = Some (TimeoutError None ''retryableerror'' timeout [''success''])"
      by (simp add: withDefaults_retry)
    then have "waitErrOf intr polls raw delay delayRand minTimeout pollInterval timeout f s
                = Some (TimeoutError None ''retryableerror'' timeout [''success''])"
      using w2 by (simp add: waitErrOf_def WaitForStateContext_alt)
    with r1 show "res = Some e \<and>
              waitErrOf intr polls raw delay delayRand minTimeout pollInterval timeout f s
                = Some (TimeoutError None ''retryableerror'' timeout [''success''])" by simp
  qed
  from A B C D show ?thesis by blast
qed

text \<open>A run that succeeds at the third call, and one that the timeout ends.\<close>

theorem RetryConfigContext_result_witness:
  "RetryConfigContext (TimedOut False) 7 0 0 0 0 0 (2 * Minute) (throttled 2) 0 = (None, 3)
   \<and> None \<in> set [Some throttlingErr, Some throttlingErr, None]
   \<and> RetryConfigContext (TimedOut True) 1 0 0 0 0 0 (2 * Minute) (throttled 5) 0
       = (Some (AWSError ''Throttling'' ''slow down''), 2)
   \<and> waitErrOf (TimedOut True) 1 0 0 0 0 0 (2 * Minute) (throttled 5) 0
       = Some (TimeoutError None ''retryableerror'' (2 * Minute) [''success''])"
proof -
  have run1: "RetryConfigContext (TimedOut False) 7 0 0 0 0 0 (2 * Minute)
      (logged (throttled 2)) (0, []) = (None, (3, [Some throttlingErr, Some throttlingErr, None]))"
    by (simp add: RetryConfigContext_def WaitForStateContext_alt withDefaults_retry
        eval_nat_numeral retry_round logged_apply throttled_def throttlingErr_def)
  have run2: "RetryConfigContext (TimedOut True) 1 0 0 0 0 0 (2 * Minute)
      (logged (throttled 5)) (0, [])
        = (Some (AWSError ''Throttling'' ''slow down''), (2, [Some throttlingErr, Some throttlingErr]))"
    by (simp add: RetryConfigContext_def WaitForStateContext_alt withDefaults_retry
        eval_nat_numeral retry_round logged_apply throttled_def throttlingErr_def)
  have e: "errOf (Some throttlingErr) = Some (AWSError ''Throttling'' ''slow down'')"
    "Retryable throttlingErr"
    by (simp_all add: errOf_def throttlingErr_def)
  have a: "RetryConfigContext (TimedOut False) 7 0 0 0 0 0 (2 * Minute) (throttled 2) 0 = (None, 3)"
    and b: "None \<in> set [Some throttlingErr, Some throttlingErr, None]"
    using RetryConfigContext_result[OF run1] by simp_all
  have c: "RetryConfigContext (TimedOut True) 1 0 0 0 0 0 (2 * Minute) (throttled 5) 0
       = (Some (AWSError ''Throttling'' ''slow down''), 2)"
    using RetryConfigContext_result[OF run2] by simp
  have "\<forall>g e. TimedOut True = TimedOut g \<and> [Some throttlingErr, Some throttlingErr] \<noteq> []
          \<and> (\<forall>x\<in>set [Some throttlingErr, Some throttlingErr]. \<exists>r. x = Some r \<and> Retryable r)
          \<and> errOf (last [Some throttlingErr, Some throttlingErr]) = Some e
          \<longrightarrow> Some (AWSError ''Throttling'' ''slow down'') = Some e \<and>
              waitErrOf (TimedOut True) 1 0 0 0 0 0 (2 * Minute) (throttled 5) 0
                = Some (TimeoutError None ''retryableerror'' (2 * Minute) [''success''])"
    using RetryConfigContext_result[OF run2] by blast
  then have d: "waitErrOf (TimedOut True) 1 0 0 0 0 0 (2 * Minute) (throttled 5) 0
       = Some (TimeoutError None ''retryableerror'' (2 * Minute) [''success''])"
    using e by auto
  from a b c d show ?thesis by blast
qed

section \<open>The initial delay\<close>

lemma Milliseconds_pos: "Milliseconds d > 0 \<longleftrightarrow> Millisecond \<le> d"
  by (auto simp: Milliseconds_def go_div_def Millisecond_def pos_imp_zdiv_pos_iff)

lemma Milliseconds_nonneg: "0 \<le> d \<Longrightarrow> Milliseconds d = d div 1000000"
  by (simp add: Milliseconds_def go_div_def)

lemma wrap64_id: "is_int64 x \<Longrightarrow> wrap64 x = x"
  by (simp add: wrap64_def is_int64_def int64_min_def int64_max_def)

lemma jitter_range:
  assumes "Millisecond \<le> d" and "is_int64 d"
  shows "0 \<le> Int63n raw (Milliseconds d)" and "Int63n raw (Milliseconds d) < Milliseconds d"
    and "wrap64 (Int63n raw (Milliseconds d) * Millisecond) = Int63n raw (Milliseconds d) * Millisecond"
    and "Int63n raw (Milliseconds d) * Millisecond < d"
proof -
  let ?n = "Milliseconds d" and ?k = "Int63n raw (Milliseconds d)"
  have n: "0 < ?n" using assms(1) by (simp add: Milliseconds_pos)
  show k0: "0 \<le> ?k" and k1: "?k < ?n" using n by (simp_all add: Int63n_def)
  have d0: "0 \<le> d" using assms(1) by (simp add: Millisecond_def)
  have "?n * 1000000 \<le> d" using d0 by (simp add: Milliseconds_nonneg)
  moreover have "?k * 1000000 < ?n * 1000000" using k1 by simp
  ultimately show lt: "?k * Millisecond < d" by (simp add: Millisecond_def)
  have "0 \<le> ?k * Millisecond" using k0 by (simp add: Millisecond_def)
  with lt assms(2) have "is_int64 (?k * Millisecond)"
    by (simp add: is_int64_def int64_min_def)
  then show "wrap64 (?k * Millisecond) = ?k * Millisecond" by (rule wrap64_id)
qed

text \<open>
  Claim C4. With \<open>delayRand\<close> of at least one millisecond, the initial delay is the random
  number of milliseconds, which lies in \<open>[0, delayRand)\<close>, whatever the fixed \<open>delay\<close>
  is (it is set first and overwritten), and every number of milliseconds below
  \<open>delayRand\<close> is the delay for some draw. With \<open>delayRand\<close> below one millisecond the
  delay is \<open>delay\<close> when that is at least one millisecond, and stays zero otherwise.
\<close>

theorem retry_delay:
  assumes "is_int64 delayRand"
  shows "(Millisecond \<le> delayRand \<longrightarrow>
            Delay (retryStateChangeConf raw delay delayRand minTimeout pollInterval timeout f)
              = Int63n raw (Milliseconds delayRand) * Millisecond
          \<and> 0 \<le> Int63n raw (Milliseconds delayRand)
          \<and> Int63n raw (Milliseconds delayRand) < Milliseconds delayRand
          \<and> Int63n raw (Milliseconds delayRand) * Millisecond < delayRand
          \<and> (\<forall>k. 0 \<le> k \<and> k < Milliseconds delayRand \<longrightarrow>
                Delay (retryStateChangeConf k delay delayRand minTimeout pollInterval timeout f)
                  = k * Millisecond))
       \<and> (delayRand < Millisecond \<and> Millisecond \<le> delay \<longrightarrow>
            Delay (retryStateChangeConf raw delay delayRand minTimeout pollInterval timeout f) = delay)
       \<and> (delayRand < Millisecond \<and> delay < Millisecond \<longrightarrow>
            Delay (retryStateChangeConf raw delay delayRand minTimeout pollInterval timeout f) = 0)"
proof -
  have sel: "\<And>r. Delay (retryStateChangeConf r delay delayRand minTimeout pollInterval timeout f) =
     (if Milliseconds delayRand > 0 then wrap64 (Int63n r (Milliseconds delayRand) * Millisecond)
      else if Milliseconds delay > 0 then delay else 0)"
    by (simp add: retryStateChangeConf_def emptyStateChangeConf_def Let_def)
  have A: "Millisecond \<le> delayRand \<Longrightarrow>
      Delay (retryStateChangeConf r delay delayRand minTimeout pollInterval timeout f)
              = Int63n r (Milliseconds delayRand) * Millisecond" for r
    using jitter_range(3)[OF _ assms, of r] by (simp add: sel Milliseconds_pos)
  have K: "Millisecond \<le> delayRand \<Longrightarrow> 0 \<le> k \<Longrightarrow> k < Milliseconds delayRand \<Longrightarrow>
      Delay (retryStateChangeConf k delay delayRand minTimeout pollInterval timeout f) = k * Millisecond" for k
    using A[of k] by (simp add: Int63n_def)
  have B: "delayRand < Millisecond \<Longrightarrow> Millisecond \<le> delay \<Longrightarrow>
      Delay (retryStateChangeConf raw delay delayRand minTimeout pollInterval timeout f) = delay"
    by (simp add: sel Milliseconds_pos)
  have C: "delayRand < Millisecond \<Longrightarrow> delay < Millisecond \<Longrightarrow>
      Delay (retryStateChangeConf raw delay delayRand minTimeout pollInterval timeout f) = 0"
    by (simp add: sel Milliseconds_pos)
  show ?thesis
    using A[of raw] K B C jitter_range(1,2,4)[OF _ assms, of raw] by blast
qed

text \<open>A draw that gives three milliseconds, and a fixed delay of two seconds.\<close>

theorem retry_delay_witness:
  "is_int64 (5 * Millisecond)
   \<and> Delay (retryStateChangeConf 12345678 (2 * Second) (5 * Millisecond) 0 0 Minute (throttled 1))
       = 3 * Millisecond
   \<and> Delay (retryStateChangeConf 12345678 (2 * Second) 999999 0 0 Minute (throttled 1))
       = 2 * Second"
proof -
  have h: "is_int64 (5 * Millisecond)" "is_int64 999999"
    by (simp_all add: is_int64_def int64_min_def int64_max_def Millisecond_def)
  have m: "Milliseconds (5 * Millisecond) = 5" "Int63n 12345678 5 = 3"
    by (simp_all add: Milliseconds_def go_div_def Millisecond_def Int63n_def)
  have o: "Millisecond \<le> 5 * Millisecond" "(999999::int) < Millisecond" "Millisecond \<le> 2 * Second"
    by (simp_all add: Millisecond_def Second_def)
  show ?thesis
    using retry_delay[OF h(1), of 12345678 "2 * Second" 0 0 Minute "throttled 1"]
      retry_delay[OF h(2), of 12345678 "2 * Second" 0 0 Minute "throttled 1"] h m o
    by simp
qed

section \<open>Properties of the flatteners\<close>

text \<open>
  Claim C6. \<open>flattenFileSystemSizeInBytes\<close> returns the empty list for nil, and
  otherwise one map that binds \<open>value\<close> to the value behind \<open>Value\<close>, and binds
  \<open>value_in_ia\<close> and \<open>value_in_standard\<close> exactly when the fields are not nil (to their
  values). \<open>flattenFileSystemProtection\<close> returns the empty list for nil, and otherwise
  one map that binds \<open>replication_overwrite\<close> exactly when the field is not nil.
\<close>

theorem flatten_size_and_protection:
  "flattenFileSystemSizeInBytes None = []
   \<and> (\<exists>m. flattenFileSystemSizeInBytes (Some sz) = [IMap m]
          \<and> m ''value'' = Some (IInt (Int64Value (Value sz)))
          \<and> (''value_in_ia'' \<in> dom m \<longleftrightarrow> ValueInIA sz \<noteq> None)
          \<and> (''value_in_standard'' \<in> dom m \<longleftrightarrow> ValueInStandard sz \<noteq> None)
          \<and> m ''value_in_ia'' = map_option IInt (ValueInIA sz)
          \<and> m ''value_in_standard'' = map_option IInt (ValueInStandard sz)
          \<and> dom m \<subseteq> {''value'', ''value_in_ia'', ''value_in_standard''})
   \<and> flattenFileSystemProtection None = []
   \<and> (\<exists>m. flattenFileSystemProtection (Some pr) = [IMap m]
          \<and> (''replication_overwrite'' \<in> dom m \<longleftrightarrow> ReplicationOverwriteProtection pr \<noteq> None)
          \<and> m ''replication_overwrite'' = map_option IString (ReplicationOverwriteProtection pr)
          \<and> dom m \<subseteq> {''replication_overwrite''})"
proof -
  have a: "flattenFileSystemSizeInBytes None = []"
    by (simp add: flattenFileSystemSizeInBytes_def)
  have b: "\<exists>m. flattenFileSystemSizeInBytes (Some sz) = [IMap m]
          \<and> m ''value'' = Some (IInt (Int64Value (Value sz)))
          \<and> (''value_in_ia'' \<in> dom m \<longleftrightarrow> ValueInIA sz \<noteq> None)
          \<and> (''value_in_standard'' \<in> dom m \<longleftrightarrow> ValueInStandard sz \<noteq> None)
          \<and> m ''value_in_ia'' = map_option IInt (ValueInIA sz)
          \<and> m ''value_in_standard'' = map_option IInt (ValueInStandard sz)
          \<and> dom m \<subseteq> {''value'', ''value_in_ia'', ''value_in_standard''}"
    by (cases "ValueInIA sz"; cases "ValueInStandard sz")
       (simp_all add: flattenFileSystemSizeInBytes_def Int64Value_def)
  have c: "flattenFileSystemProtection None = []"
    by (simp add: flattenFileSystemProtection_def)
  have d: "\<exists>m. flattenFileSystemProtection (Some pr) = [IMap m]
          \<and> (''replication_overwrite'' \<in> dom m \<longleftrightarrow> ReplicationOverwriteProtection pr \<noteq> None)
          \<and> m ''replication_overwrite'' = map_option IString (ReplicationOverwriteProtection pr)
          \<and> dom m \<subseteq> {''replication_overwrite''}"
    by (cases "ReplicationOverwriteProtection pr")
       (simp_all add: flattenFileSystemProtection_def)
  from a b c d show ?thesis by blast
qed

lemma expand_one:
  "expandFileSystemLifecyclePolicies (IMap m # l) =
     Some \<lparr> TransitionToArchive = strField m ''transition_to_archive'',
            TransitionToIA = strField m ''transition_to_ia'',
            TransitionToPrimaryStorageClass = strField m ''transition_to_primary_storage_class'' \<rparr>
     # expandFileSystemLifecyclePolicies l"
  by (simp add: Let_def strField_def split: prod.split)

lemma flatten_one:
  "flattenFileSystemLifecyclePolicies (Some a # l) =
     IMap (putField ''transition_to_primary_storage_class'' (TransitionToPrimaryStorageClass a)
            (putField ''transition_to_ia'' (TransitionToIA a)
              (putField ''transition_to_archive'' (TransitionToArchive a) Map.empty)))
     # flattenFileSystemLifecyclePolicies l"
  by (simp add: Let_def putField_def)

lemma strField_nonEmpty: "nonEmptyString (m k) \<Longrightarrow> map_option IString (strField m k) = m k"
  by (auto simp: nonEmptyString_def strField_def stringAt_def split: option.splits iface.splits)

lemma putField_apply:
  "putField k p f x = (if x = k \<and> p \<noteq> None then map_option IString p else f x)"
  by (cases p) (simp_all add: putField_def)

lemma rebuild:
  assumes d: "dom m \<subseteq> {k1, k2, k3}"
    and n1: "nonEmptyString (m k1)" and n2: "nonEmptyString (m k2)" and n3: "nonEmptyString (m k3)"
  shows "putField k3 (strField m k3) (putField k2 (strField m k2)
           (putField k1 (strField m k1) Map.empty)) = m"
proof
  fix x
  have s: "map_option IString (strField m k1) = m k1" "map_option IString (strField m k2) = m k2"
    "map_option IString (strField m k3) = m k3"
    using n1 n2 n3 by (simp_all add: strField_nonEmpty)
  have z: "strField m k = None \<longleftrightarrow> m k = None" if "map_option IString (strField m k) = m k" for k
    using that by (cases "strField m k") (auto dest: sym)
  have o: "m x = None" if "x \<noteq> k1" "x \<noteq> k2" "x \<noteq> k3"
    using d that by auto
  show "putField k3 (strField m k3) (putField k2 (strField m k2)
           (putField k1 (strField m k1) Map.empty)) x = m x"
  proof (cases "x = k3 \<and> m k3 \<noteq> None")
    case True
    then show ?thesis using s(3) z[OF s(3)] by (simp add: putField_apply)
  next
    case n3: False
    show ?thesis
    proof (cases "x = k2 \<and> m k2 \<noteq> None")
      case True
      then show ?thesis using n3 s z[OF s(2)] z[OF s(3)] by (simp add: putField_apply)
    next
      case n2: False
      show ?thesis
      proof (cases "x = k1 \<and> m k1 \<noteq> None")
        case True
        then show ?thesis using n3 n2 s z[OF s(1)] z[OF s(2)] z[OF s(3)]
          by (simp add: putField_apply)
      next
        case False
        with n3 n2 have "m x = None" using o by blast
        with False n3 n2 show ?thesis using z[OF s(1)] z[OF s(2)] z[OF s(3)]
          by (auto simp: putField_apply)
      qed
    qed
  qed
qed

text \<open>
  Claim C7. On a list of lifecycle-policy maps, flattening the expansion gives the list
  back.
\<close>

theorem lifecycle_roundtrip:
  assumes "\<forall>x \<in> set l. lifecyclePolicyMap x"
  shows "flattenFileSystemLifecyclePolicies (expandFileSystemLifecyclePolicies l) = l"
  using assms
proof (induction l)
  case Nil
  show ?case by simp
next
  case (Cons x l)
  from Cons.prems have okx: "lifecyclePolicyMap x" and okl: "\<forall>x \<in> set l. lifecyclePolicyMap x"
    by simp_all
  from okx obtain m where x: "x = IMap m"
    by (cases x) (simp_all add: lifecyclePolicyMap_def)
  from okx x have "dom m \<subseteq> {''transition_to_archive'', ''transition_to_ia'',
                    ''transition_to_primary_storage_class''}"
    and "nonEmptyString (m ''transition_to_archive'')"
    and "nonEmptyString (m ''transition_to_ia'')"
    and "nonEmptyString (m ''transition_to_primary_storage_class'')"
    by (simp_all add: lifecyclePolicyMap_def lifecycleKeys_def)
  then have "putField ''transition_to_primary_storage_class''
               (strField m ''transition_to_primary_storage_class'')
               (putField ''transition_to_ia'' (strField m ''transition_to_ia'')
                  (putField ''transition_to_archive'' (strField m ''transition_to_archive'')
                     Map.empty)) = m"
    by (rule rebuild)
  then have "flattenFileSystemLifecyclePolicies (expandFileSystemLifecyclePolicies (IMap m # l))
      = IMap m # flattenFileSystemLifecyclePolicies (expandFileSystemLifecyclePolicies l)"
    by (simp only: expand_one flatten_one LifecyclePolicy.simps)
  with x Cons.IH[OF okl] show ?case by (simp only:)
qed

text \<open>Two policies, as a configuration gives them.\<close>

theorem lifecycle_roundtrip_witness:
  "flattenFileSystemLifecyclePolicies (expandFileSystemLifecyclePolicies
      [IMap [''transition_to_ia'' \<mapsto> IString ''AFTER_30_DAYS''],
       IMap [''transition_to_primary_storage_class'' \<mapsto> IString ''AFTER_1_ACCESS'']])
    = [IMap [''transition_to_ia'' \<mapsto> IString ''AFTER_30_DAYS''],
       IMap [''transition_to_primary_storage_class'' \<mapsto> IString ''AFTER_1_ACCESS'']]"
proof -
  have "\<forall>x \<in> set [IMap [''transition_to_ia'' \<mapsto> IString ''AFTER_30_DAYS''],
       IMap [''transition_to_primary_storage_class'' \<mapsto> IString ''AFTER_1_ACCESS'']].
          lifecyclePolicyMap x"
    by (simp add: lifecyclePolicyMap_def lifecycleKeys_def nonEmptyString_def)
  then show ?thesis by (rule lifecycle_roundtrip)
qed

section \<open>Properties of create and read\<close>

lemma GetOk_string_configured:
  "GetOk_string p = (case configuredString p of None \<Rightarrow> (StringValue p, False) | Some v \<Rightarrow> (v, True))"
  by (auto simp: GetOk_string_def configuredString_def StringValue_def split: option.splits)

text \<open>
  Claim C3 (as amended). In the request of \<open>resourceFileSystemCreate\<close> the creation token
  is the configured \<open>creation_token\<close> when that is set to a string that is not empty, and
  the fresh unique ID otherwise; \<open>availability_zone_name\<close> and \<open>performance_mode\<close> are
  copied when they are set to a string that is not empty, and left out otherwise; the
  provisioned throughput is in the request exactly when \<open>throughput_mode\<close> is
  \<open>provisioned\<close>, and so it is in the request of \<open>resourceFileSystemUpdate\<close>.
\<close>

theorem create_input_fields:
  "cfs_CreationToken (createFileSystemInput d tagsIn uid)
      = Some (case configuredString (attr_creation_token d) of Some v \<Rightarrow> v | None \<Rightarrow> uid)
   \<and> cfs_AvailabilityZoneName (createFileSystemInput d tagsIn uid)
      = configuredString (attr_availability_zone_name d)
   \<and> cfs_PerformanceMode (createFileSystemInput d tagsIn uid)
      = configuredString (attr_performance_mode d)
   \<and> cfs_ProvisionedThroughputInMibps (createFileSystemInput d tagsIn uid)
      = (if Get_throughput_mode d = ''provisioned''
         then Some (Get_provisioned_throughput_in_mibps d) else None)
   \<and> ufs_ProvisionedThroughputInMibps (updateFileSystemInput d)
      = (if Get_throughput_mode d = ''provisioned''
         then Some (Get_provisioned_throughput_in_mibps d) else None)"
  by (simp add: createFileSystemInput_def updateFileSystemInput_def Let_def
        GetOk_string_configured GetOk_bool_def ThroughputModeProvisioned_def
        split: option.split prod.split)

text \<open>
  A \<open>creation_token\<close> that is set to the empty string is not the creation token of the
  request: \<open>d.GetOk\<close> reports it like an attribute that is not set, and the request
  carries the unique ID.
\<close>

theorem create_token_counterexample:
  "attr_creation_token (exampleData\<lparr>attr_creation_token := Some []\<rparr>) = Some []
   \<and> cfs_CreationToken (createFileSystemInput (exampleData\<lparr>attr_creation_token := Some []\<rparr>)
        [] ''terraform-20261031000000000000000001'')
       = Some ''terraform-20261031000000000000000001''
   \<and> cfs_CreationToken (createFileSystemInput (exampleData\<lparr>attr_creation_token := Some []\<rparr>)
        [] ''terraform-20261031000000000000000001'')
       \<noteq> attr_creation_token (exampleData\<lparr>attr_creation_token := Some []\<rparr>)"
  by (simp add: createFileSystemInput_def Let_def GetOk_string_def GetOk_bool_def exampleData_def
        Get_throughput_mode_def ThroughputModeBursting_def ThroughputModeProvisioned_def)

text \<open>
  Claim C8 (as amended). When \<open>kms_key_id\<close> is set to a string that is not empty and
  \<open>encrypted\<close> is not set or set to false, \<open>resourceFileSystemCreate\<close> returns the one
  diagnostic of line 225 and leaves the resource data and the remote service as they
  were, whatever the client is: no operation of the client is called.
\<close>

theorem create_kms_needs_encrypted:
  assumes "configuredString (attr_kms_key_id d) \<noteq> None"
    and "attr_encrypted d = None \<or> attr_encrypted d = Some False"
  shows "resourceFileSystemCreate meta sched tagsIn uid d w = finish [encryptedError] d None w"
proof -
  from assms(1) have "snd (GetOk_string (attr_kms_key_id d))"
    by (simp add: GetOk_string_configured split: option.splits)
  moreover from assms(2) have "fst (GetOk_bool (attr_encrypted d)) = False"
    by (auto simp: GetOk_bool_def)
  ultimately show ?thesis
    by (simp add: resourceFileSystemCreate_def Let_def encryptedError_def)
qed

text \<open>A key with \<open>encrypted\<close> left out.\<close>

theorem create_kms_needs_encrypted_witness:
  "resourceFileSystemCreate scriptedClient (TimedOut False, 3) [] ''terraform-1''
      (exampleData\<lparr>attr_kms_key_id := Some ''arn:aws:kms:us-east-1:123456789012:key/k1''\<rparr>)
      [''creating'', ''available'']
    = finish [encryptedError]
        (exampleData\<lparr>attr_kms_key_id := Some ''arn:aws:kms:us-east-1:123456789012:key/k1''\<rparr>)
        None [''creating'', ''available'']"
proof -
  have "configuredString (attr_kms_key_id
      (exampleData\<lparr>attr_kms_key_id := Some ''arn:aws:kms:us-east-1:123456789012:key/k1''\<rparr>)) \<noteq> None"
    by (simp add: configuredString_def)
  moreover have "attr_encrypted
      (exampleData\<lparr>attr_kms_key_id := Some ''arn:aws:kms:us-east-1:123456789012:key/k1''\<rparr>) = None
      \<or> attr_encrypted
      (exampleData\<lparr>attr_kms_key_id := Some ''arn:aws:kms:us-east-1:123456789012:key/k1''\<rparr>) = Some False"
    by (simp add: exampleData_def)
  ultimately show ?thesis by (rule create_kms_needs_encrypted)
qed

text \<open>
  A \<open>kms_key_id\<close> that is set to the empty string, with \<open>encrypted\<close> set to false, is
  not rejected: CreateFileSystem is called, and it is its error that comes back.
\<close>

theorem create_empty_kms_counterexample:
  "attr_kms_key_id (exampleData\<lparr>attr_kms_key_id := Some [], attr_encrypted := Some False\<rparr>) = Some []
   \<and> resourceFileSystemCreate scriptedClient (TimedOut False, 3) [] ''terraform-1''
        (exampleData\<lparr>attr_kms_key_id := Some [], attr_encrypted := Some False\<rparr>) [''available'']
      = finish [DiagErrorf ''creating EFS file system'' deniedError]
          (exampleData\<lparr>attr_kms_key_id := Some [], attr_encrypted := Some False\<rparr>) None [''available'']"
  by (simp add: resourceFileSystemCreate_def Let_def GetOk_string_def GetOk_bool_def
        exampleData_def scriptedClient_def)

text \<open>
  Claim C10. When \<open>FindFileSystemByID\<close> returns an error that says that the file system
  is not found, \<open>resourceFileSystemRead\<close> on a resource that is not new clears the ID and
  returns no diagnostic; on a new resource it keeps the ID and returns the error as a
  diagnostic.
\<close>

theorem read_not_found:
  assumes "FindFileSystemByID meta (resId d) w = (Inl e, w1)" and "NotFound (Some e)"
  shows "resourceFileSystemRead meta d w =
           (if isNewResource d
            then finish [DiagErrorf (''reading EFS file system ('' @ resId d @ '')'') e] d None w1
            else finish [] (d\<lparr>resId := []\<rparr>) None w1)"
  using assms by (simp add: resourceFileSystemRead_def)

lemma find_gone:
  "FindFileSystemByID scriptedClient ident [] = (Inl (NotFoundError (Some goneError) 0), [])"
  by (simp add: FindFileSystemByID_def findFileSystem_def findFileSystems_def scriptedClient_def
        ErrCodeEquals_def goneError_def ErrCodeFileSystemNotFound_def)

text \<open>A file system that is gone, read for a known resource and for a new one.\<close>

theorem read_not_found_witness:
  "resourceFileSystemRead scriptedClient (exampleData\<lparr>resId := ''fs-1'', isNewResource := False\<rparr>) []
     = finish [] (exampleData\<lparr>resId := [], isNewResource := False\<rparr>) None []
   \<and> resourceFileSystemRead scriptedClient (exampleData\<lparr>resId := ''fs-1''\<rparr>) []
     = finish [DiagErrorf ''reading EFS file system (fs-1)'' (NotFoundError (Some goneError) 0)]
         (exampleData\<lparr>resId := ''fs-1''\<rparr>) None []"
proof -
  have nf: "NotFound (Some (NotFoundError (Some goneError) 0))" by (simp add: NotFound_def)
  have a: "FindFileSystemByID scriptedClient
      (resId (exampleData\<lparr>resId := ''fs-1'', isNewResource := False\<rparr>)) []
        = (Inl (NotFoundError (Some goneError) 0), [])"
    and b: "FindFileSystemByID scriptedClient (resId (exampleData\<lparr>resId := ''fs-1''\<rparr>)) []
        = (Inl (NotFoundError (Some goneError) 0), [])"
    by (simp_all add: find_gone)
  show ?thesis
    using read_not_found[OF a nf] read_not_found[OF b nf]
    by (simp add: exampleData_def)
qed

section \<open>Properties of the waits\<close>

lemma scanTarget_once:
  "scanTarget cur (Suc 0) T found 0 = (if cur \<in> set T then (True, Suc 0, True) else (found, 0, False))"
  by (induction T arbitrary: found) auto

lemma round_cases:
  assumes c1: "ContinuousTargetOccurence c = 1"
    and rf: "Refresh c s = ((res, st, err), s')"
  shows "refreshRound c nf 0 s =
     (if reached (Target c) (res, st, err) then (Finished res st None True, s')
      else if pollAgain (Pending c) (Target c) (res, st, err)
      then (if res = None
            then (if nf + 1 > NotFoundChecks c
                  then (Finished res st (Some (NotFoundError None (nf + 1))) False, s')
                  else (Continue (nf + 1) 0 st, s'))
            else (Continue 0 0 st, s'))
      else (Finished res st
              (if err \<noteq> None then err else Some (UnexpectedStateError None st (Target c)))
              False, s'))"
proof (cases "err = None")
  case False
  then show ?thesis using rf by (auto simp: refreshRound_def reached_def pollAgain_def)
next
  case e: True
  show ?thesis
  proof (cases res)
    case None
    with e rf c1 show ?thesis
      by (auto simp: refreshRound_def reached_def pollAgain_def)
  next
    case (Some v)
    with e rf c1 show ?thesis
      by (auto simp: refreshRound_def reached_def pollAgain_def scanTarget_once)
  qed
qed

lemma reached_not_pollAgain: "reached T x \<Longrightarrow> \<not> pollAgain P T x"
  by (auto simp: reached_def pollAgain_def split: prod.splits if_splits)

lemma pollsOK_Cons:
  assumes "pollAgain (Pending c) (Target c) (f r)"
    and "pollsOK c intr f (fst (snd (f r))) new res werr"
  shows "pollsOK c intr f st0 (r # new) res werr"
proof (cases "new = []")
  case True
  with assms show ?thesis
    using reached_not_pollAgain[of "Target c" "f r" "Pending c"]
    by (auto simp: pollsOK_def)
next
  case False
  with assms show ?thesis by (auto simp: pollsOK_def)
qed

lemma pollsOK_single:
  "pollsOK c intr f st0 [r] res werr \<longleftrightarrow>
     (if reached (Target c) (f r) then werr = None \<and> res = fst (f r)
      else werr \<noteq> None \<and>
           (pollAgain (Pending c) (Target c) (f r) \<and> fst (f r) \<noteq> None
              \<longrightarrow> werr = Some (interruptErr c intr (fst (snd (f r))))))"
  by (simp add: pollsOK_def)

lemma wait_polls:
  assumes c1: "ContinuousTargetOccurence c = 1"
    and lg: "\<And>w log. \<exists>r w'. Refresh c (w, log) = (f r, (w', log @ [r]))"
  shows "waitLoop c intr n nf 0 st0 (w, log0) = ((res, werr), (w', log'))
    \<Longrightarrow> \<exists>new. log' = log0 @ new \<and> pollsOK c intr f st0 new res werr"
proof (induction n arbitrary: nf st0 w log0)
  case 0
  show ?case
  proof (cases intr)
    case Cancelled
    with 0 have "log' = log0 @ []" "pollsOK c intr f st0 [] res werr"
      by (auto simp: pollsOK_def interruptErr_def)
    then show ?thesis by blast
  next
    case (TimedOut g)
    show ?thesis
    proof (cases g)
      case False
      with 0 TimedOut have "log' = log0 @ []" "pollsOK c intr f st0 [] res werr"
        by (auto simp: pollsOK_def interruptErr_def)
      then show ?thesis by blast
    next
      case True
      from lg[of w log0] obtain r w1 where rf: "Refresh c (w, log0) = (f r, (w1, log0 @ [r]))"
        by blast
      obtain a b e where fr: "f r = (a, b, e)" by (cases "f r")
      from rf fr have rf': "Refresh c (w, log0) = ((a, b, e), (w1, log0 @ [r]))" by simp
      from 0 TimedOut True have "log' = log0 @ [r] \<and> pollsOK c intr f st0 [r] res werr"
        unfolding pollsOK_single
        by (auto simp: round_cases[OF c1 rf'] fr interruptErr_def split: if_splits)
      then show ?thesis by blast
    qed
  qed
next
  case (Suc n)
  from lg[of w log0] obtain r w1 where rf: "Refresh c (w, log0) = (f r, (w1, log0 @ [r]))"
    by blast
  obtain a b e where fr: "f r = (a, b, e)" by (cases "f r")
  from rf fr have rf': "Refresh c (w, log0) = ((a, b, e), (w1, log0 @ [r]))" by simp
  show ?case
  proof (cases "\<exists>nf'. refreshRound c nf 0 (w, log0) = (Continue nf' 0 b, (w1, log0 @ [r]))")
    case True
    then obtain nf' where rr: "refreshRound c nf 0 (w, log0) = (Continue nf' 0 b, (w1, log0 @ [r]))"
      by blast
    then have pa: "pollAgain (Pending c) (Target c) (f r)"
      by (auto simp: round_cases[OF c1 rf'] fr split: if_splits)
    from Suc.prems rr have "waitLoop c intr n nf' 0 b (w1, log0 @ [r]) = ((res, werr), (w', log'))"
      by simp
    from Suc.IH[OF this] obtain new where
      n: "log' = (log0 @ [r]) @ new" "pollsOK c intr f b new res werr" by blast
    from n(2) fr have "pollsOK c intr f (fst (snd (f r))) new res werr" by simp
    from pollsOK_Cons[OF pa this] have "pollsOK c intr f st0 (r # new) res werr" .
    with n(1) show ?thesis by auto
  next
    case False
    with Suc.prems have "log' = log0 @ [r] \<and> pollsOK c intr f st0 [r] res werr"
      unfolding pollsOK_single
      by (auto simp: round_cases[OF c1 rf'] fr split: if_splits)
    then show ?thesis by blast
  qed
qed


lemma wait_budget:
  assumes c1: "ContinuousTargetOccurence c = 1"
    and lg: "\<And>w log. \<exists>r w'. Refresh c (w, log) = (f r, (w', log @ [r]))"
  shows "waitLoop c intr n nf 0 st0 (w, log0) = ((res, werr), (w', log0 @ new))
    \<Longrightarrow> length new \<le> Suc n \<and> (new = [] \<longrightarrow> n = 0) \<and>
        (new \<noteq> [] \<and> pollAgain (Pending c) (Target c) (f (last new)) \<and> fst (f (last new)) \<noteq> None
           \<longrightarrow> n \<le> length new)"
proof (induction n arbitrary: nf st0 w log0 new)
  case 0
  show ?case
  proof (cases "intr = TimedOut True")
    case False
    with 0 have "log0 @ new = log0"
      by (cases intr) (auto split: bool.splits)
    then show ?thesis by simp
  next
    case True
    from lg[of w log0] obtain r w1 where rf: "Refresh c (w, log0) = (f r, (w1, log0 @ [r]))"
      by blast
    obtain a b e where fr: "f r = (a, b, e)" by (cases "f r")
    from rf fr have rf': "Refresh c (w, log0) = ((a, b, e), (w1, log0 @ [r]))" by simp
    from 0 True have "log0 @ new = log0 @ [r]"
      by (auto simp: round_cases[OF c1 rf'] split: if_splits)
    then show ?thesis by simp
  qed
next
  case (Suc n)
  from lg[of w log0] obtain r w1 where rf: "Refresh c (w, log0) = (f r, (w1, log0 @ [r]))"
    by blast
  obtain a b e where fr: "f r = (a, b, e)" by (cases "f r")
  from rf fr have rf': "Refresh c (w, log0) = ((a, b, e), (w1, log0 @ [r]))" by simp
  show ?case
  proof (cases "\<exists>nf'. refreshRound c nf 0 (w, log0) = (Continue nf' 0 b, (w1, log0 @ [r]))")
    case True
    then obtain nf' where rr: "refreshRound c nf 0 (w, log0) = (Continue nf' 0 b, (w1, log0 @ [r]))"
      by blast
    from Suc.prems rr
    have w: "waitLoop c intr n nf' 0 b (w1, log0 @ [r]) = ((res, werr), (w', log0 @ new))"
      by simp
    from wait_polls[OF c1 lg w] obtain new' where "log0 @ new = (log0 @ [r]) @ new'" by blast
    then have n: "new = r # new'" by simp
    with w have "waitLoop c intr n nf' 0 b (w1, log0 @ [r]) = ((res, werr), (w', (log0 @ [r]) @ new'))"
      by simp
    from Suc.IH[OF this]
    have ih: "length new' \<le> Suc n" "new' = [] \<longrightarrow> n = 0"
      "new' \<noteq> [] \<and> pollAgain (Pending c) (Target c) (f (last new')) \<and> fst (f (last new')) \<noteq> None
           \<longrightarrow> n \<le> length new'"
      by blast+
    show ?thesis
    proof (cases "new' = []")
      case True
      with ih n show ?thesis by simp
    next
      case False
      with ih n show ?thesis by simp
    qed
  next
    case False
    with Suc.prems have "log0 @ new = log0 @ [r]"
      by (auto simp: round_cases[OF c1 rf'] split: if_splits)
    then have n: "new = [r]" by simp
    have "\<not> (pollAgain (Pending c) (Target c) (f r) \<and> fst (f r) \<noteq> None)"
    proof
      assume h: "pollAgain (Pending c) (Target c) (f r) \<and> fst (f r) \<noteq> None"
      then have "\<not> reached (Target c) (f r)" using reached_not_pollAgain by blast
      with h fr have "refreshRound c nf 0 (w, log0) = (Continue 0 0 b, (w1, log0 @ [r]))"
        by (simp add: round_cases[OF c1 rf'])
      with False show False by blast
    qed
    with n show ?thesis by auto
  qed
qed

lemma find_by_id:
  "FindFileSystemByID c ident w =
     (case DescribeFileSystemsPagesWithContext c (Some ident) w of (r, w1) \<Rightarrow> (foundIn r, w1))"
  by (auto simp: FindFileSystemByID_def findFileSystem_def findFileSystems_def foundIn_def Let_def
        split: prod.splits option.splits sum.splits)

lemma status_plain:
  "statusFileSystemLifeCycleState c ident w =
     (case DescribeFileSystemsPagesWithContext c (Some ident) w of (r, w1) \<Rightarrow> (observe r, w1))"
  by (auto simp: statusFileSystemLifeCycleState_def find_by_id observe_def
        split: prod.splits sum.splits)

lemma describe_logged:
  "DescribeFileSystemsPagesWithContext (loggedClient c) input (w, log) =
     (case DescribeFileSystemsPagesWithContext c input w of (r, w1) \<Rightarrow> (r, (w1, log @ [r])))"
  by (simp add: loggedClient_def)

lemma status_logged:
  "statusFileSystemLifeCycleState (loggedClient c) ident (w, log) =
     (case statusFileSystemLifeCycleState c ident w of
        (x, w1) \<Rightarrow> (x, (w1, log @ [fst (DescribeFileSystemsPagesWithContext c (Some ident) w)])))"
  by (simp add: status_plain describe_logged split: prod.splits)

lemma status_logged_ex:
  "\<exists>r w1. statusFileSystemLifeCycleState (loggedClient c) ident (w, log) = (observe r, (w1, log @ [r]))"
  by (simp add: status_plain describe_logged split: prod.splits)

lemma round_same:
  assumes "samePolls c1 c2 g"
  shows "refreshRound c1 nf occ (w, log) =
     (case refreshRound c2 nf occ w of (rd, w1) \<Rightarrow> (rd, (w1, log @ [g w])))"
proof -
  obtain a b e w1 where r2: "Refresh c2 w = ((a, b, e), w1)" by (cases "Refresh c2 w") auto
  with assms have r1: "Refresh c1 (w, log) = ((a, b, e), (w1, log @ [g w]))"
    by (simp add: samePolls_def)
  have eqs: "Target c1 = Target c2" "Pending c1 = Pending c2"
    "NotFoundChecks c1 = NotFoundChecks c2"
    "ContinuousTargetOccurence c1 = ContinuousTargetOccurence c2"
    using assms by (simp_all add: samePolls_def)
  show ?thesis
    unfolding refreshRound_def r1 r2 eqs
    by (auto split: prod.split)
qed

lemma wait_same:
  assumes sp: "samePolls c1 c2 g"
  shows "waitLoop c1 intr n nf occ st (w, log) = ((res, werr), (w', log'))
    \<Longrightarrow> waitLoop c2 intr n nf occ st w = ((res, werr), w')"
proof (induction n arbitrary: nf occ st w log)
  case 0
  have eqs: "Timeout c1 = Timeout c2" "Target c1 = Target c2"
    using sp by (simp_all add: samePolls_def)
  obtain rd w1 where rr: "refreshRound c2 nf occ w = (rd, w1)"
    by (cases "refreshRound c2 nf occ w")
  show ?case
  proof (cases intr)
    case Cancelled
    with 0 show ?thesis by simp
  next
    case (TimedOut g')
    show ?thesis
    proof (cases g')
      case False
      with 0 TimedOut eqs show ?thesis by simp
    next
      case True
      show ?thesis
      proof (cases rd)
        case (Finished a b c d)
        with 0 TimedOut True rr eqs show ?thesis
          by (cases d) (simp_all add: round_same[OF sp])
      next
        case (Continue nf1 occ1 st1)
        with 0 TimedOut True rr eqs show ?thesis
          by (simp add: round_same[OF sp])
      qed
    qed
  qed
next
  case (Suc n)
  obtain rd w1 where rr: "refreshRound c2 nf occ w = (rd, w1)"
    by (cases "refreshRound c2 nf occ w")
  show ?case
  proof (cases rd)
    case (Finished a b c d)
    with Suc.prems rr show ?thesis by (simp add: round_same[OF sp])
  next
    case (Continue nf1 occ1 st1)
    with Suc.prems rr
    have "waitLoop c1 intr n nf1 occ1 st1 (w1, log @ [g w]) = ((res, werr), (w', log'))"
      by (simp add: round_same[OF sp])
    from Suc.IH[OF this] show ?thesis using rr Continue by simp
  qed
qed

lemma waitFileSystemAvailable_alt:
  "waitFileSystemAvailable c sched ident w =
     waitLoop (withDefaults (availableConf c ident)) (fst sched) (snd sched) 0 0 [] w"
  by (simp add: waitFileSystemAvailable_def availableConf_def WaitForStateContext_def)

lemma waitFileSystemDeleted_alt:
  "waitFileSystemDeleted c sched ident w =
     waitLoop (withDefaults (deletedConf c ident)) (fst sched) (snd sched) 0 0 [] w"
  by (simp add: waitFileSystemDeleted_def deletedConf_def WaitForStateContext_def)

lemma availableConf_fields:
  "ContinuousTargetOccurence (withDefaults (availableConf c ident)) = 1"
  "NotFoundChecks (withDefaults (availableConf c ident)) = 20"
  "Target (withDefaults (availableConf c ident)) = [LifeCycleStateAvailable]"
  "Pending (withDefaults (availableConf c ident)) = [LifeCycleStateCreating, LifeCycleStateUpdating]"
  "Timeout (withDefaults (availableConf c ident)) = fileSystemAvailableTimeout"
  "Refresh (withDefaults (availableConf c ident)) = statusFileSystemLifeCycleState c ident"
  by (simp_all add: availableConf_def withDefaults_def emptyStateChangeConf_def Let_def)

lemma deletedConf_fields:
  "ContinuousTargetOccurence (withDefaults (deletedConf c ident)) = 1"
  "NotFoundChecks (withDefaults (deletedConf c ident)) = 20"
  "Target (withDefaults (deletedConf c ident)) = []"
  "Pending (withDefaults (deletedConf c ident)) = [LifeCycleStateAvailable, LifeCycleStateDeleting]"
  "Timeout (withDefaults (deletedConf c ident)) = fileSystemDeletedTimeout"
  "Refresh (withDefaults (deletedConf c ident)) = statusFileSystemLifeCycleState c ident"
  by (simp_all add: deletedConf_def withDefaults_def emptyStateChangeConf_def Let_def)

lemma samePolls_available:
  "samePolls (withDefaults (availableConf (loggedClient c) ident))
     (withDefaults (availableConf c ident))
     (\<lambda>w. fst (DescribeFileSystemsPagesWithContext c (Some ident) w))"
  by (simp add: samePolls_def availableConf_fields status_logged)

lemma samePolls_deleted:
  "samePolls (withDefaults (deletedConf (loggedClient c) ident))
     (withDefaults (deletedConf c ident))
     (\<lambda>w. fst (DescribeFileSystemsPagesWithContext c (Some ident) w))"
  by (simp add: samePolls_def deletedConf_fields status_logged)

lemma states_distinct:
  "LifeCycleStateAvailable \<noteq> LifeCycleStateCreating"
  "LifeCycleStateAvailable \<noteq> LifeCycleStateUpdating"
  "LifeCycleStateAvailable \<noteq> LifeCycleStateDeleting"
  by (simp_all add: LifeCycleStateAvailable_def LifeCycleStateCreating_def
        LifeCycleStateUpdating_def LifeCycleStateDeleting_def)

lemma observe_cases:
  "(observe x = (None, [], None) \<and> observation x = Missing)
   \<or> (\<exists>e. observe x = (None, [], Some e) \<and> observation x = Failed e)
   \<or> (\<exists>fs st. observe x = (Some fs, st, None) \<and> observation x = Found fs st)"
  by (auto simp: observe_def observation_def split: sum.splits)

lemma pollAgain_available:
  "pollAgain [LifeCycleStateCreating, LifeCycleStateUpdating] [LifeCycleStateAvailable] (observe x)
     \<longleftrightarrow> observation x = Missing \<or>
         (\<exists>fs st. observation x = Found fs st \<and>
            (st = LifeCycleStateCreating \<or> st = LifeCycleStateUpdating))"
  using observe_cases[of x] states_distinct
  by (auto simp: pollAgain_def)

lemma reached_available:
  "reached [LifeCycleStateAvailable] (observe x)
     \<longleftrightarrow> (\<exists>fs. observation x = Found fs LifeCycleStateAvailable)"
  using observe_cases[of x] by (auto simp: reached_def)

lemma pollAgain_deleted:
  "pollAgain [LifeCycleStateAvailable, LifeCycleStateDeleting] [] (observe x)
     \<longleftrightarrow> (\<exists>fs st. observation x = Found fs st \<and>
            (st = LifeCycleStateAvailable \<or> st = LifeCycleStateDeleting))"
  using observe_cases[of x] by (auto simp: pollAgain_def)

lemma reached_deleted:
  "reached [] (observe x) \<longleftrightarrow> observation x = Missing"
  using observe_cases[of x] by (auto simp: reached_def)

lemma found_fst: "observation x = Found fs st \<Longrightarrow> observe x = (Some fs, st, None)"
  using observe_cases[of x] by auto

lemma last_index: "i < length xs \<Longrightarrow> xs ! i \<notin> set (butlast xs) \<Longrightarrow> Suc i = length xs"
proof (rule ccontr)
  assume a: "i < length xs" "xs ! i \<notin> set (butlast xs)" "Suc i \<noteq> length xs"
  then have "i < length (butlast xs)" by simp
  then have "butlast xs ! i \<in> set (butlast xs)" by (rule nth_mem)
  moreover have "butlast xs ! i = xs ! i" using \<open>i < length (butlast xs)\<close> by (rule nth_butlast)
  ultimately show False using a(2) by simp
qed

lemma wait_available_polls:
  assumes run: "waitFileSystemAvailable (loggedClient c) sched ident (w, []) = ((out, err), (w', log))"
  shows "waitFileSystemAvailable c sched ident w = ((out, err), w')
    \<and> (\<forall>x \<in> set (butlast log). observation x = Missing \<or> pendingAvailable (observation x))
    \<and> (err = None \<longleftrightarrow> log \<noteq> [] \<and> (\<exists>fs. observation (last log) = Found fs LifeCycleStateAvailable))
    \<and> (\<forall>fs. log \<noteq> [] \<and> observation (last log) = Found fs LifeCycleStateAvailable
           \<longrightarrow> out = Some fs)
    \<and> (\<forall>fs st. log \<noteq> [] \<and> observation (last log) = Found fs st \<and> pendingAvailable (Found fs st)
           \<longrightarrow> err = Some (cutOff (fst sched) st fileSystemAvailableTimeout [LifeCycleStateAvailable]))
    \<and> (\<forall>i. i < length log \<and> unexpectedAvailable (observation (log ! i))
           \<longrightarrow> Suc i = length log \<and> err \<noteq> None)
    \<and> length log \<le> Suc (snd sched)
    \<and> (log = [] \<longrightarrow> snd sched = 0)
    \<and> (\<forall>fs st. log \<noteq> [] \<and> observation (last log) = Found fs st \<and> pendingAvailable (Found fs st)
           \<longrightarrow> snd sched \<le> length log)"
proof -
  let ?c1 = "withDefaults (availableConf (loggedClient c) ident)"
  let ?P = "[LifeCycleStateCreating, LifeCycleStateUpdating]" and ?T = "[LifeCycleStateAvailable]"
  from run have w1: "waitLoop ?c1 (fst sched) (snd sched) 0 0 [] (w, []) = ((out, err), (w', log))"
    by (simp add: waitFileSystemAvailable_alt)
  from wait_same[OF samePolls_available w1]
  have A1: "waitFileSystemAvailable c sched ident w = ((out, err), w')"
    by (simp add: waitFileSystemAvailable_alt)
  have lg: "\<And>w log. \<exists>r w1. Refresh ?c1 (w, log) = (observe r, (w1, log @ [r]))"
    unfolding availableConf_fields by (rule status_logged_ex)
  from wait_polls[OF availableConf_fields(1) lg w1]
  have ok: "pollsOK ?c1 (fst sched) observe [] log out err" by simp
  have A2: "\<forall>x \<in> set (butlast log). observation x = Missing \<or> pendingAvailable (observation x)"
    using ok by (simp add: pollsOK_def availableConf_fields pollAgain_available pendingAvailable_def)
  have A3: "err = None \<longleftrightarrow> log \<noteq> [] \<and> (\<exists>fs. observation (last log) = Found fs LifeCycleStateAvailable)"
    using ok by (auto simp: pollsOK_def availableConf_fields reached_available split: if_splits)
  have A4: "\<forall>fs. log \<noteq> [] \<and> observation (last log) = Found fs LifeCycleStateAvailable
           \<longrightarrow> out = Some fs"
  proof (intro allI impI)
    fix fs assume h: "log \<noteq> [] \<and> observation (last log) = Found fs LifeCycleStateAvailable"
    then have "reached ?T (observe (last log))" using reached_available by blast
    with ok h have "out = fst (observe (last log))"
      by (simp add: pollsOK_def availableConf_fields)
    with h found_fst[of "last log" fs] show "out = Some fs" by simp
  qed
  have A5: "\<forall>fs st. log \<noteq> [] \<and> observation (last log) = Found fs st \<and> pendingAvailable (Found fs st)
           \<longrightarrow> err = Some (cutOff (fst sched) st fileSystemAvailableTimeout [LifeCycleStateAvailable])"
  proof (intro allI impI)
    fix fs st
    assume h: "log \<noteq> [] \<and> observation (last log) = Found fs st \<and> pendingAvailable (Found fs st)"
    then have pa: "pollAgain ?P ?T (observe (last log))"
      unfolding pollAgain_available by (simp add: pendingAvailable_def)
    then have nr: "\<not> reached ?T (observe (last log))"
      using reached_not_pollAgain by blast
    from h have f: "observe (last log) = (Some fs, st, None)" using found_fst by blast
    from ok h pa nr f show "err = Some (cutOff (fst sched) st fileSystemAvailableTimeout [LifeCycleStateAvailable])"
      by (simp add: pollsOK_def availableConf_fields interruptErr_def cutOff_def split: interrupt.split)
  qed
  have A6: "\<forall>i. i < length log \<and> observation (log ! i) \<noteq> Missing
              \<and> \<not> pendingAvailable (observation (log ! i))
           \<longrightarrow> Suc i = length log"
  proof (intro allI impI)
    fix i
    assume h: "i < length log \<and> observation (log ! i) \<noteq> Missing
              \<and> \<not> pendingAvailable (observation (log ! i))"
    with A2 have "log ! i \<notin> set (butlast log)" by blast
    with h show "Suc i = length log" using last_index by blast
  qed
  have A7: "\<forall>i. i < length log \<and> unexpectedAvailable (observation (log ! i))
           \<longrightarrow> Suc i = length log \<and> err \<noteq> None"
  proof (intro allI impI)
    fix i
    assume h: "i < length log \<and> unexpectedAvailable (observation (log ! i))"
    then have "observation (log ! i) \<noteq> Missing \<and> \<not> pendingAvailable (observation (log ! i))"
      by (auto simp: unexpectedAvailable_def pendingAvailable_def)
    with h A6 have i: "Suc i = length log" by blast
    then have "last log = log ! i" using h by (metis diff_Suc_1 last_conv_nth list.size(3) not_less0)
    with h A3 have "err \<noteq> None" by (auto simp: unexpectedAvailable_def)
    with i show "Suc i = length log \<and> err \<noteq> None" by simp
  qed
  from w1 have "waitLoop ?c1 (fst sched) (snd sched) 0 0 [] (w, []) = ((out, err), (w', [] @ log))"
    by simp
  from wait_budget[OF availableConf_fields(1) lg this]
  have bud: "length log \<le> Suc (snd sched)" "log = [] \<longrightarrow> snd sched = 0"
    "log \<noteq> [] \<and> pollAgain ?P ?T (observe (last log)) \<and> fst (observe (last log)) \<noteq> None
       \<longrightarrow> snd sched \<le> length log"
    by (simp_all add: availableConf_fields)
  have A8: "\<forall>fs st. log \<noteq> [] \<and> observation (last log) = Found fs st \<and> pendingAvailable (Found fs st)
           \<longrightarrow> snd sched \<le> length log"
  proof (intro allI impI)
    fix fs st
    assume h: "log \<noteq> [] \<and> observation (last log) = Found fs st \<and> pendingAvailable (Found fs st)"
    then have pa: "pollAgain ?P ?T (observe (last log))"
      unfolding pollAgain_available by (simp add: pendingAvailable_def)
    from h have f: "observe (last log) = (Some fs, st, None)" using found_fst by blast
    from bud(3) h pa f show "snd sched \<le> length log" by simp
  qed
  from A1 A2 A3 A4 A5 A7 bud(1,2) A8 show ?thesis by blast
qed

lemma wait_deleted_polls:
  assumes run: "waitFileSystemDeleted (loggedClient c) sched ident (w, []) = ((out, err), (w', log))"
  shows "waitFileSystemDeleted c sched ident w = ((out, err), w')
    \<and> (\<forall>x \<in> set (butlast log). pendingDeleted (observation x))
    \<and> (err = None \<longleftrightarrow> log \<noteq> [] \<and> observation (last log) = Missing)
    \<and> (err = None \<longrightarrow> out = None)
    \<and> (\<forall>fs st. log \<noteq> [] \<and> observation (last log) = Found fs st \<and> pendingDeleted (Found fs st)
           \<longrightarrow> err = Some (cutOff (fst sched) st fileSystemDeletedTimeout []))
    \<and> (\<forall>i. i < length log \<and> unexpectedDeleted (observation (log ! i))
           \<longrightarrow> Suc i = length log \<and> err \<noteq> None)
    \<and> length log \<le> Suc (snd sched)
    \<and> (log = [] \<longrightarrow> snd sched = 0)
    \<and> (\<forall>fs st. log \<noteq> [] \<and> observation (last log) = Found fs st \<and> pendingDeleted (Found fs st)
           \<longrightarrow> snd sched \<le> length log)"
proof -
  let ?c1 = "withDefaults (deletedConf (loggedClient c) ident)"
  let ?P = "[LifeCycleStateAvailable, LifeCycleStateDeleting]"
  from run have w1: "waitLoop ?c1 (fst sched) (snd sched) 0 0 [] (w, []) = ((out, err), (w', log))"
    by (simp add: waitFileSystemDeleted_alt)
  from wait_same[OF samePolls_deleted w1]
  have B1: "waitFileSystemDeleted c sched ident w = ((out, err), w')"
    by (simp add: waitFileSystemDeleted_alt)
  have lg: "\<And>w log. \<exists>r w1. Refresh ?c1 (w, log) = (observe r, (w1, log @ [r]))"
    unfolding deletedConf_fields by (rule status_logged_ex)
  from wait_polls[OF deletedConf_fields(1) lg w1]
  have ok: "pollsOK ?c1 (fst sched) observe [] log out err" by simp
  have B2: "\<forall>x \<in> set (butlast log). pendingDeleted (observation x)"
    using ok by (simp add: pollsOK_def deletedConf_fields pollAgain_deleted pendingDeleted_def)
  have B3: "err = None \<longleftrightarrow> log \<noteq> [] \<and> observation (last log) = Missing"
    using ok by (auto simp: pollsOK_def deletedConf_fields reached_deleted split: if_splits)
  have B4: "err = None \<longrightarrow> out = None"
  proof
    assume "err = None"
    with B3 have h: "log \<noteq> []" "observation (last log) = Missing" by simp_all
    then have "reached [] (observe (last log))" by (simp add: reached_deleted)
    with ok h have "out = fst (observe (last log))" by (simp add: pollsOK_def deletedConf_fields)
    moreover have "observe (last log) = (None, [], None)"
      using observe_cases[of "last log"] h(2) by auto
    ultimately show "out = None" by simp
  qed
  have B5: "\<forall>fs st. log \<noteq> [] \<and> observation (last log) = Found fs st \<and> pendingDeleted (Found fs st)
           \<longrightarrow> err = Some (cutOff (fst sched) st fileSystemDeletedTimeout [])"
  proof (intro allI impI)
    fix fs st
    assume h: "log \<noteq> [] \<and> observation (last log) = Found fs st \<and> pendingDeleted (Found fs st)"
    then have pa: "pollAgain ?P [] (observe (last log))"
      unfolding pollAgain_deleted by (simp add: pendingDeleted_def)
    then have nr: "\<not> reached [] (observe (last log))"
      using reached_not_pollAgain by blast
    from h have f: "observe (last log) = (Some fs, st, None)" using found_fst by blast
    from ok h pa nr f show "err = Some (cutOff (fst sched) st fileSystemDeletedTimeout [])"
      by (simp add: pollsOK_def deletedConf_fields interruptErr_def cutOff_def split: interrupt.split)
  qed
  have B6: "\<forall>i. i < length log \<and> \<not> pendingDeleted (observation (log ! i))
           \<longrightarrow> Suc i = length log"
  proof (intro allI impI)
    fix i
    assume h: "i < length log \<and> \<not> pendingDeleted (observation (log ! i))"
    with B2 have "log ! i \<notin> set (butlast log)" by blast
    with h show "Suc i = length log" using last_index by blast
  qed
  have B7: "\<forall>i. i < length log \<and> unexpectedDeleted (observation (log ! i))
           \<longrightarrow> Suc i = length log \<and> err \<noteq> None"
  proof (intro allI impI)
    fix i
    assume h: "i < length log \<and> unexpectedDeleted (observation (log ! i))"
    then have "\<not> pendingDeleted (observation (log ! i))"
      by (auto simp: unexpectedDeleted_def pendingDeleted_def)
    with h B6 have i: "Suc i = length log" by blast
    then have "last log = log ! i" using h by (metis diff_Suc_1 last_conv_nth list.size(3) not_less0)
    with h B3 have "err \<noteq> None" by (auto simp: unexpectedDeleted_def)
    with i show "Suc i = length log \<and> err \<noteq> None" by simp
  qed
  from w1 have "waitLoop ?c1 (fst sched) (snd sched) 0 0 [] (w, []) = ((out, err), (w', [] @ log))"
    by simp
  from wait_budget[OF deletedConf_fields(1) lg this]
  have bud: "length log \<le> Suc (snd sched)" "log = [] \<longrightarrow> snd sched = 0"
    "log \<noteq> [] \<and> pollAgain ?P [] (observe (last log)) \<and> fst (observe (last log)) \<noteq> None
       \<longrightarrow> snd sched \<le> length log"
    by (simp_all add: deletedConf_fields)
  have B8: "\<forall>fs st. log \<noteq> [] \<and> observation (last log) = Found fs st \<and> pendingDeleted (Found fs st)
           \<longrightarrow> snd sched \<le> length log"
  proof (intro allI impI)
    fix fs st
    assume h: "log \<noteq> [] \<and> observation (last log) = Found fs st \<and> pendingDeleted (Found fs st)"
    then have pa: "pollAgain ?P [] (observe (last log))"
      unfolding pollAgain_deleted by (simp add: pendingDeleted_def)
    from h have f: "observe (last log) = (Some fs, st, None)" using found_fst by blast
    from bud(3) h pa f show "snd sched \<le> length log" by simp
  qed
  from B1 B2 B3 B4 B5 B7 bud(1,2) B8 show ?thesis by blast
qed

lemma exampleFileSystem_state: "LifeCycleState (exampleFileSystem i st) = Some st"
  by (simp add: exampleFileSystem_def)

lemma scripted_status:
  "statusFileSystemLifeCycleState scriptedClient ident (st # rest)
     = ((Some (exampleFileSystem (Some ident) st), st, None), rest)"
  "statusFileSystemLifeCycleState scriptedClient ident [] = ((None, [], None), [])"
  "fst (DescribeFileSystemsPagesWithContext scriptedClient (Some ident) (st # rest))
     = ([Some [Some (exampleFileSystem (Some ident) st)]], None)"
  "fst (DescribeFileSystemsPagesWithContext scriptedClient (Some ident) [])
     = ([], Some goneError)"
  by (simp_all add: status_plain scriptedClient_def observe_def foundIn_def ErrCodeEquals_def
        pageMatches_def AssertSinglePtrResult_def exampleFileSystem_state StringValue_def
        NotFound_def goneError_def ErrCodeFileSystemNotFound_def)

lemma run_available:
  "waitFileSystemAvailable (loggedClient scriptedClient) (TimedOut False, 5) ''fs-1''
      ([''creating'', ''available''], [])
    = ((Some (exampleFileSystem (Some ''fs-1'') ''available''), None),
       ([], [([Some [Some (exampleFileSystem (Some ''fs-1'') ''creating'')]], None),
             ([Some [Some (exampleFileSystem (Some ''fs-1'') ''available'')]], None)]))"
  by (simp add: waitFileSystemAvailable_alt eval_nat_numeral refreshRound_def
        availableConf_fields status_logged scripted_status
        LifeCycleStateCreating_def LifeCycleStateUpdating_def LifeCycleStateAvailable_def)

lemma run_deleted:
  "waitFileSystemDeleted (loggedClient scriptedClient) (TimedOut False, 5) ''fs-1''
      ([''deleting''], [])
    = ((None, None),
       ([], [([Some [Some (exampleFileSystem (Some ''fs-1'') ''deleting'')]], None),
             ([], Some goneError)]))"
  by (simp add: waitFileSystemDeleted_alt eval_nat_numeral refreshRound_def
        deletedConf_fields status_logged scripted_status
        LifeCycleStateDeleting_def LifeCycleStateAvailable_def)

lemma observation_Missing:
  "observation r = Missing \<longleftrightarrow> (\<exists>e. foundIn r = Inl e \<and> NotFound (Some e))"
  by (auto simp: observation_def observe_def split: sum.splits)

lemma observation_two_file_systems:
  "observation ([Some [Some a, Some b]], None) = Missing"
  by (simp add: observation_Missing foundIn_def ErrCodeEquals_def pageMatches_def
        AssertSinglePtrResult_def NotFound_def)

lemma run_unexpected:
  "waitFileSystemAvailable scriptedClient (TimedOut False, 5) ''fs-1'' [''error'']
    = ((Some (exampleFileSystem (Some ''fs-1'') ''error''),
        Some (UnexpectedStateError None ''error'' [LifeCycleStateAvailable])), [])"
  by (simp add: waitFileSystemAvailable_alt eval_nat_numeral refreshRound_def
        availableConf_fields scripted_status
        LifeCycleStateCreating_def LifeCycleStateUpdating_def LifeCycleStateAvailable_def)

text \<open>
  Claim C2 (as amended). Run \<open>waitFileSystemAvailable\<close> with the polls logged. The
  result is that of the run without the log. Every poll but the last saw the state
  creating or updating (or found no file system, which the wait tolerates a number of
  times). The wait returns no error exactly when the last poll saw the state available,
  and then it returns the description of that poll. A wait whose last poll saw creating
  or updating has used up its polls and was cut off, by the timeout or the context: it
  went on polling as long as it could. A poll that failed or saw any other state is the
  last one, and the wait returns an error. A wait that may poll polls: there is no poll
  only when none returns before the cut-off, and there is at most one poll more than
  return before it. \<open>waitFileSystemDeleted\<close> likewise: every poll but the last saw
  available or deleting, and the wait returns no error exactly when the last poll found
  no file system.
\<close>

theorem wait_file_system_polls:
  "(waitFileSystemAvailable (loggedClient c) sched ident (w, []) = ((out, err), (w', log)) \<longrightarrow>
      waitFileSystemAvailable c sched ident w = ((out, err), w')
      \<and> (\<forall>x \<in> set (butlast log). observation x = Missing \<or> pendingAvailable (observation x))
      \<and> (err = None \<longleftrightarrow>
            log \<noteq> [] \<and> (\<exists>fs. observation (last log) = Found fs LifeCycleStateAvailable))
      \<and> (\<forall>fs. log \<noteq> [] \<and> observation (last log) = Found fs LifeCycleStateAvailable
             \<longrightarrow> out = Some fs)
      \<and> (\<forall>fs st. log \<noteq> [] \<and> observation (last log) = Found fs st \<and> pendingAvailable (Found fs st)
             \<longrightarrow> err = Some (cutOff (fst sched) st fileSystemAvailableTimeout
                                [LifeCycleStateAvailable]))
      \<and> (\<forall>i. i < length log \<and> unexpectedAvailable (observation (log ! i))
             \<longrightarrow> Suc i = length log \<and> err \<noteq> None)
      \<and> length log \<le> Suc (snd sched)
      \<and> (log = [] \<longrightarrow> snd sched = 0)
      \<and> (\<forall>fs st. log \<noteq> [] \<and> observation (last log) = Found fs st \<and> pendingAvailable (Found fs st)
             \<longrightarrow> snd sched \<le> length log))
   \<and> (waitFileSystemDeleted (loggedClient c) sched ident (w, []) = ((out, err), (w', log)) \<longrightarrow>
      waitFileSystemDeleted c sched ident w = ((out, err), w')
      \<and> (\<forall>x \<in> set (butlast log). pendingDeleted (observation x))
      \<and> (err = None \<longleftrightarrow> log \<noteq> [] \<and> observation (last log) = Missing)
      \<and> (err = None \<longrightarrow> out = None)
      \<and> (\<forall>fs st. log \<noteq> [] \<and> observation (last log) = Found fs st \<and> pendingDeleted (Found fs st)
             \<longrightarrow> err = Some (cutOff (fst sched) st fileSystemDeletedTimeout []))
      \<and> (\<forall>i. i < length log \<and> unexpectedDeleted (observation (log ! i))
             \<longrightarrow> Suc i = length log \<and> err \<noteq> None)
      \<and> length log \<le> Suc (snd sched)
      \<and> (log = [] \<longrightarrow> snd sched = 0)
      \<and> (\<forall>fs st. log \<noteq> [] \<and> observation (last log) = Found fs st \<and> pendingDeleted (Found fs st)
             \<longrightarrow> snd sched \<le> length log))"
  apply (rule conjI)
   apply (rule impI, erule wait_available_polls)
  apply (rule impI, erule wait_deleted_polls)
  done

text \<open>A file system that becomes available, and one that is deleted.\<close>

theorem wait_file_system_polls_witness:
  "waitFileSystemAvailable scriptedClient (TimedOut False, 5) ''fs-1'' [''creating'', ''available'']
     = ((Some (exampleFileSystem (Some ''fs-1'') ''available''), None), [])
   \<and> waitFileSystemDeleted scriptedClient (TimedOut False, 5) ''fs-1'' [''deleting'']
     = ((None, None), [])"
proof -
  from wait_file_system_polls[of scriptedClient "(TimedOut False, 5)" "''fs-1''"
      "[''creating'', ''available'']"
      "Some (exampleFileSystem (Some ''fs-1'') ''available'')" None "[]"
      "[([Some [Some (exampleFileSystem (Some ''fs-1'') ''creating'')]], None),
        ([Some [Some (exampleFileSystem (Some ''fs-1'') ''available'')]], None)]"]
  have a: "waitFileSystemAvailable scriptedClient (TimedOut False, 5) ''fs-1''
      [''creating'', ''available'']
     = ((Some (exampleFileSystem (Some ''fs-1'') ''available''), None), [])"
    using run_available by blast
  from wait_file_system_polls[of scriptedClient "(TimedOut False, 5)" "''fs-1''"
      "[''deleting'']" None None "[]"
      "[([Some [Some (exampleFileSystem (Some ''fs-1'') ''deleting'')]], None),
        ([], Some goneError)]"]
  have b: "waitFileSystemDeleted scriptedClient (TimedOut False, 5) ''fs-1'' [''deleting'']
     = ((None, None), [])"
    using run_deleted by blast
  from a b show ?thesis by blast
qed

text \<open>
  A file system in a state that is neither pending nor the target: the wait returns its
  description, beside the error. So a description comes back also when the state is not
  available.
\<close>

theorem wait_description_counterexample:
  "waitFileSystemAvailable scriptedClient (TimedOut False, 5) ''fs-1'' [''error'']
     = ((Some (exampleFileSystem (Some ''fs-1'') ''error''),
         Some (UnexpectedStateError None ''error'' [LifeCycleStateAvailable])), [])
   \<and> LifeCycleState (exampleFileSystem (Some ''fs-1'') ''error'') \<noteq> Some LifeCycleStateAvailable"
  using run_unexpected by (simp add: exampleFileSystem_state LifeCycleStateAvailable_def)

section \<open>Properties of delete\<close>




end
